theory Spec2Isabelle
  imports Main "HOL-Library.Word" "HOL-Library.Sublist" "HOL-Library.Multiset"
    "HOL-Library.Char_ord" "HOL-Library.List_Lexorder"
begin

unbundle bit_operations_syntax

section \<open>Process helpers of finit (helpers.c)\<close>

text \<open>
  The functions of helpers.c are embedded as HOL functions.  Memory that the C code
  mutates in place (the copy of the command line made by \<open>strdup\<close>, the line buffer
  of \<open>procname_kill\<close>) is a \<open>char list\<close> indexed by offsets; a pointer into it is
  a \<open>nat\<close>, a pointer that may be \<open>NULL\<close> a \<open>nat option\<close>.  A dereference of
  \<open>NULL\<close> or a read outside the allocation is undefined behaviour in C and is a
  value of the type \<open>fault\<close> here.
\<close>

subsection \<open>C strings\<close>

datatype fault = NullDeref | OutOfBounds

abbreviation NUL :: char where
  "NUL \<equiv> CHR 0x00"

definition NUM_ARGS :: nat where
  "NUM_ARGS = 16"

definition NUM_SCRIPTS :: nat where
  "NUM_SCRIPTS = 128"

text \<open>The bytes of the C string that starts at the head of a byte sequence.\<close>

definition c_str :: "char list \<Rightarrow> string" where
  "c_str bs = takeWhile (\<lambda>c. c \<noteq> NUL) bs"

text \<open>The C string found at offset \<open>p\<close> of a buffer.\<close>

definition c_str_at :: "char list \<Rightarrow> nat \<Rightarrow> string" where
  "c_str_at buf p = c_str (drop p buf)"

text \<open>\<open>strdup\<close>: a fresh buffer holding the string and its terminator.\<close>

definition strdup :: "string \<Rightarrow> char list" where
  "strdup s = c_str s @ [NUL]"

text \<open>
  \<open>strcspn\<close> of the C library: the length of the initial segment without bytes of
  \<open>reject\<close>.  \<open>None\<close> when the scan leaves the allocation before a terminator.
\<close>

fun strcspn :: "char list \<Rightarrow> char list \<Rightarrow> nat option" where
  "strcspn [] reject = None"
| "strcspn (c # cs) reject =
     (if c = NUL \<or> c \<in> set reject then Some 0 else map_option Suc (strcspn cs reject))"

text \<open>
  \<open>strsep(&stringp, delim)\<close> of the C library on the buffer \<open>buf\<close>: the result is
  the returned token pointer, the buffer after the call and the new value of
  \<open>stringp\<close>.
\<close>

definition strsep ::
  "char list \<Rightarrow> nat option \<Rightarrow> char list \<Rightarrow> fault + (nat option \<times> char list \<times> nat option)" where
  "strsep buf stringp delim =
     (case stringp of
        None \<Rightarrow> Inr (None, buf, None)
      | Some b \<Rightarrow>
          (case strcspn (drop b buf) delim of
             None \<Rightarrow> Inl OutOfBounds
           | Some n \<Rightarrow>
               (if buf ! (b + n) \<noteq> NUL
                then Inr (Some b, buf[b + n := NUL], Some (b + n + 1))
                else Inr (Some b, buf, None))))"

subsection \<open>The tokenizer of \<open>run\<close>\<close>

text \<open>
  One pass through the body of the \<open>do ... while\<close> loop of \<open>run\<close> (lines 408-419):
  the pointer stored in \<open>args[i]\<close>, the buffer and \<open>arg\<close> afterwards.
\<close>

definition run_split_step ::
  "char list \<Rightarrow> nat option \<Rightarrow> fault + (nat option \<times> char list \<times> nat option)" where
  "run_split_step buf arg =
     (case arg of
        None \<Rightarrow> Inl NullDeref
      | Some a \<Rightarrow>
          if length buf \<le> a then Inl OutOfBounds
          else if buf ! a = CHR 0x27 \<or> buf ! a = CHR 0x22 then
            (let delim = [buf ! a] in
             case strsep buf (Some (a + 1)) delim of
               Inl f \<Rightarrow> Inl f
             | Inr (_, buf1, arg1) \<Rightarrow>
                 (case arg1 of
                    None \<Rightarrow> Inl NullDeref
                  | Some a1 \<Rightarrow>
                      (let p = a1 - 1;
                           buf2 = buf1[p := hd delim]
                       in if length buf2 \<le> a1 then Inl OutOfBounds
                          else Inr (Some a, buf2[a1 := NUL], Some (a1 + 1)))))
          else strsep buf (Some a) [CHR 0x09, CHR '' ''])"

text \<open>
  The loop itself: \<open>args\<close> holds \<open>args[0..i-1]\<close>, so \<open>i\<close> is its length.  The
  body runs before the condition \<open>arg && i < NUM_ARGS\<close> is looked at.
\<close>

function run_split_loop ::
  "char list \<Rightarrow> nat option \<Rightarrow> nat option list
     \<Rightarrow> fault + (char list \<times> nat option \<times> nat option list)" where
  "run_split_loop buf arg args =
     (case run_split_step buf arg of
        Inl f \<Rightarrow> Inl f
      | Inr (tok, buf', arg') \<Rightarrow>
          (if arg' \<noteq> None \<and> length (args @ [tok]) < NUM_ARGS
           then run_split_loop buf' arg' (args @ [tok])
           else Inr (buf', arg', args @ [tok])))"
  by pat_completeness auto
termination
  by (relation "measure (\<lambda>(buf, arg, args). NUM_ARGS - length args)") auto

text \<open>
  Lines 399-421: copy the command, take the first token, loop, then store
  \<open>args[i] = NULL\<close>.  The result is the buffer, the array \<open>args[0..i]\<close> and \<open>i\<close>.
\<close>

definition run_split :: "string \<Rightarrow> fault + (char list \<times> nat option list \<times> nat)" where
  "run_split cmd =
     (case strsep (strdup cmd) (Some 0) [CHR 0x09, CHR '' ''] of
        Inl f \<Rightarrow> Inl f
      | Inr (tok, buf1, arg) \<Rightarrow>
          (case run_split_loop buf1 arg [tok] of
             Inl f \<Rightarrow> Inl f
           | Inr (buf2, arg2, args) \<Rightarrow> Inr (buf2, args @ [None], length args)))"

text \<open>
  What \<open>execvp\<close> and \<open>execv\<close> read from an argument vector: the strings at the
  pointers before the first \<open>NULL\<close>.
\<close>

definition argv_of :: "char list \<Rightarrow> nat option list \<Rightarrow> string list" where
  "argv_of buf args = map (\<lambda>p. c_str_at buf (the p)) (takeWhile (\<lambda>p. p \<noteq> None) args)"

text \<open>The argument vector that \<open>run\<close> hands to \<open>execvp\<close> for a command line.\<close>

definition run_argv :: "string \<Rightarrow> fault + string list" where
  "run_argv cmd =
     (case run_split cmd of
        Inl f \<Rightarrow> Inl f
      | Inr (buf, args, i) \<Rightarrow> Inr (argv_of buf args))"

subsection \<open>Wait statuses\<close>

text \<open>
  The terminal state of a child process, and the status word that \<open>waitpid\<close> stores
  for it: the low byte of the exit code in bits 8-15, or the signal number in bits 0-6
  with the core-dump flag in bit 7.  The macros are those of the C library's
  \<open>sys/wait.h\<close>, with \<open>int\<close> as a 32-bit word.
\<close>

datatype child_state = ExitedNormally "8 word" | KilledBySignal nat bool

definition wait_status :: "child_state \<Rightarrow> 32 word" where
  "wait_status t =
     (case t of
        ExitedNormally code \<Rightarrow> push_bit 8 (ucast code)
      | KilledBySignal signum core \<Rightarrow> of_nat signum OR (if core then 0x80 else 0))"

definition WEXITSTATUS :: "32 word \<Rightarrow> 32 word" where
  "WEXITSTATUS status = drop_bit 8 (status AND 0xff00)"

definition WTERMSIG :: "32 word \<Rightarrow> 32 word" where
  "WTERMSIG status = status AND 0x7f"

definition WIFEXITED :: "32 word \<Rightarrow> bool" where
  "WIFEXITED status = (WTERMSIG status = 0)"

definition WIFSIGNALED :: "32 word \<Rightarrow> bool" where
  "WIFSIGNALED status =
     (0 < drop_bit 1 (sint (ucast ((status AND 0x7f) + 1) :: 8 word)))"

text \<open>Lines 474-488 of \<open>run\<close>: the value returned for a reaped status.\<close>

definition run_result :: "32 word \<Rightarrow> int" where
  "run_result status =
     (let result = sint (WEXITSTATUS status) in
      if WIFEXITED status then result
      else if WIFSIGNALED status then (if result = 0 then 1 else result)
      else result)"

subsection \<open>Processes and the operating system\<close>

text \<open>
  The state of the calling process that the helpers read or change: \<open>errno\<close>, the
  signal dispositions, the descriptor table (descriptor to the name of the open file),
  the working directory, the global \<open>debug\<close> flag, and the trace of the process
  related system calls made so far.  The logging macros (\<open>_d\<close>, \<open>_e\<close>, \<open>_pe\<close>,
  \<open>ERROR\<close>) have no effect on any of these and are left out.
\<close>

datatype disposition = SIG_DFL | SIG_IGN | SIG_HANDLER

datatype child_fate = Exec string "string list" | Exit int

datatype event =
    EForkFailed
  | ESpawn int child_fate
  | EWaitpid int
  | EWrite int string
  | EKill int int

record proc =
  errno :: int
  sigtab :: "nat \<Rightarrow> disposition"
  fds :: "int \<rightharpoonup> string"
  cwd :: string
  debug :: bool
  trace :: "event list"

text \<open>
  A call either faults, returns a value in a new state, or does not return because the
  calling process is a forked child that has replaced its image or has exited.
\<close>

datatype 'a outcome = Fault fault | Returns 'a proc | Leaves child_fate proc

definition EBADF :: int where "EBADF = 9"
definition EINVAL :: int where "EINVAL = 22"
definition ENOENT :: int where "ENOENT = 2"
definition ERANGE :: int where "ERANGE = 34"
definition EOVERFLOW :: int where "EOVERFLOW = 75"

definition NSIG :: nat where
  "NSIG = 65"

text \<open>
  What the functions cannot decide themselves is read from a record of answers of the
  operating system: whether an allocation fails, which descriptor a stream gets, what
  \<open>fork\<close> returns in the calling process before the given file is executed (0 in
  the child, -1 on failure, the child's pid in the parent), whether \<open>exec\<close> of a
  file fails, how the executed program ends, whether \<open>waitpid\<close> on a pid fails
  (with which \<open>errno\<close>), the descriptor of the stream that \<open>tmpfile\<close> opens,
  the descriptor that \<open>dup\<close> returns for a descriptor (-1 on failure), the bytes
  that the temporary file holds once the command has run, and whether \<open>getcwd\<close>
  fails.
\<close>

record os =
  strdup_null :: bool
  devnull_fd :: "int option"
  fork_ret :: "string \<Rightarrow> int"
  exec_fails :: "string \<Rightarrow> bool"
  prog_end :: "string \<Rightarrow> child_state"
  wait_errno :: "int \<Rightarrow> int option"
  tmpfile_fd :: "int option"
  dup_ret :: "int \<Rightarrow> int"
  captured :: string
  getcwd_null :: bool

text \<open>How a child with the given fate terminates, and the status its parent reaps.\<close>

definition child_end :: "os \<Rightarrow> child_fate \<Rightarrow> child_state" where
  "child_end os fate =
     (case fate of
        Exit code \<Rightarrow> ExitedNormally (word_of_int code)
      | Exec file argv \<Rightarrow> prog_end os file)"

definition reaped :: "os \<Rightarrow> child_fate \<Rightarrow> 32 word" where
  "reaped os fate = wait_status (child_end os fate)"

text \<open>
  Modelled from the spec: the macro \<open>DFLSIG\<close> of sig.h is not part of the sources;
  the specification has the child reset the disposition of a signal number to the
  default, which is what the macro's name and its use say.
\<close>

definition DFLSIG :: "nat \<Rightarrow> proc \<Rightarrow> proc" where
  "DFLSIG signo st = st\<lparr>sigtab := (sigtab st)(signo := SIG_DFL)\<rparr>"

definition dup2 :: "int \<Rightarrow> int \<Rightarrow> proc \<Rightarrow> proc" where
  "dup2 oldfd newfd st =
     (case fds st oldfd of
        None \<Rightarrow> st\<lparr>errno := EBADF\<rparr>
      | Some f \<Rightarrow> st\<lparr>fds := (fds st)(newfd \<mapsto> f)\<rparr>)"

definition fclose :: "int option \<Rightarrow> proc \<Rightarrow> proc" where
  "fclose fp st =
     (case fp of None \<Rightarrow> st | Some fd \<Rightarrow> st\<lparr>fds := (fds st)(fd := None)\<rparr>)"

subsection \<open>\<open>run\<close>\<close>

text \<open>
  Lines 437-454, the branch \<open>0 == pid\<close>: the forked child resets the dispositions of
  the signals 1 to \<open>NSIG - 1\<close>, redirects the standard descriptors to \<open>fp\<close> when that
  is open, and executes the argument vector; \<open>_exit(1)\<close> when \<open>execvp\<close> returns.
\<close>

definition run_child :: "os \<Rightarrow> proc \<Rightarrow> int option \<Rightarrow> string list \<Rightarrow> child_fate \<times> proc" where
  "run_child os st fp argv =
     (let st1 = fold DFLSIG [1..<NSIG] st;
          st2 = (case fp of
                   None \<Rightarrow> st1
                 | Some fd \<Rightarrow> dup2 fd 2 (dup2 fd 1 (dup2 fd 0 st1)))
      in if exec_fails os (hd argv) then (Exit 1, st2) else (Exec (hd argv) argv, st2))"

text \<open>
  \<open>run\<close>, lines 391-489.  \<open>args[0]\<close> is the pointer returned by the first
  \<open>strsep\<close> and is never \<open>NULL\<close>, so the argument vector has a head.
\<close>

definition run :: "os \<Rightarrow> proc \<Rightarrow> string \<Rightarrow> int outcome" where
  "run os st cmd =
     (if strdup_null os then Returns 1 st
      else
        case run_split cmd of
          Inl f \<Rightarrow> Fault f
        | Inr (buf, args, i) \<Rightarrow>
            if i = NUM_ARGS \<and> args ! i \<noteq> None
            then Returns 1 (st\<lparr>errno := EOVERFLOW\<rparr>)
            else
              (let fp = devnull_fd os;
                   st1 = (case fp of
                            None \<Rightarrow> st
                          | Some fd \<Rightarrow> st\<lparr>fds := (fds st)(fd \<mapsto> ''/dev/null'')\<rparr>);
                   argv = argv_of buf args;
                   pid = fork_ret os (hd argv)
               in if pid = 0 then
                    (case run_child os st1 fp argv of (fate, st') \<Rightarrow> Leaves fate st')
                  else if pid = - 1 then
                    Returns (- 1) (st1\<lparr>trace := trace st1 @ [EForkFailed]\<rparr>)
                  else
                    (let fate = fst (run_child os st1 fp argv);
                         st2 = st1\<lparr>trace := trace st1 @ [ESpawn pid fate, EWaitpid pid]\<rparr>
                     in case wait_errno os pid of
                          Some e \<Rightarrow> Returns 1 (fclose fp (st2\<lparr>errno := e\<rparr>))
                        | None \<Rightarrow> Returns (run_result (reaped os fate)) (fclose fp st2))))"

subsection \<open>A sample system\<close>

text \<open>
  A process as the supervisor runs it (\<open>SIGCHLD\<close>, signal 17, ignored; the console
  on the standard descriptors) and a system in which \<open>/bin/false\<close> exits with 1,
  \<open>/bin/sleep\<close> is killed by \<open>SIGKILL\<close> and every other program exits with 0.
\<close>

definition ex_proc :: proc where
  "ex_proc =
     \<lparr>errno = 0,
      sigtab = (\<lambda>_. SIG_DFL)(17 := SIG_IGN),
      fds = [0 \<mapsto> ''/dev/console'', 1 \<mapsto> ''/dev/console'', 2 \<mapsto> ''/dev/console''],
      cwd = ''/'',
      debug = False,
      trace = []\<rparr>"

definition ex_os :: os where
  "ex_os =
     \<lparr>strdup_null = False,
      devnull_fd = Some 3,
      fork_ret = (\<lambda>file. if file = ''S01a'' then 101 else if file = ''S02b'' then 102 else 100),
      exec_fails = (\<lambda>file. file = ''/bin/missing''),
      prog_end = (\<lambda>file. if file = ''/bin/false'' then ExitedNormally 1
                          else if file = ''/bin/sleep'' then KilledBySignal 9 False
                          else ExitedNormally 0),
      wait_errno = (\<lambda>_. None),
      tmpfile_fd = Some 4,
      dup_ret = (\<lambda>fd. fd + 4),
      captured = ''sleep: killed'',
      getcwd_null = False\<rparr>"

text \<open>
  The terminal states a process can have: any exit code, or death by a signal whose
  number fits the seven bits of the status word and is neither 0 nor the marker 0x7f
  of a stopped process.
\<close>

definition valid_end :: "child_state \<Rightarrow> bool" where
  "valid_end t =
     (case t of
        ExitedNormally code \<Rightarrow> True
      | KilledBySignal signum core \<Rightarrow> 0 < signum \<and> signum < 127)"

subsection \<open>\<open>run_interactive\<close>\<close>

definition EFAULT :: int where "EFAULT = 14"

text \<open>\<open>dup\<close>: the new descriptor is the operating system's choice.\<close>

definition dup :: "os \<Rightarrow> int \<Rightarrow> proc \<Rightarrow> int \<times> proc" where
  "dup os fd st =
     (case fds st fd of
        None \<Rightarrow> (- 1, st\<lparr>errno := EBADF\<rparr>)
      | Some f \<Rightarrow>
          if dup_ret os fd = - 1 then (- 1, st)
          else (dup_ret os fd, st\<lparr>fds := (fds st)(dup_ret os fd \<mapsto> f)\<rparr>))"

definition write_fd :: "int \<Rightarrow> string \<Rightarrow> proc \<Rightarrow> proc" where
  "write_fd fd bytes st = st\<lparr>trace := trace st @ [EWrite fd bytes]\<rparr>"

text \<open>
  \<open>print_uptime\<close> (lines 346-365) prints only when the build defines
  \<open>CONFIG_PRINTK_TIME\<close>; the build modelled here does not, so it returns 0 and
  writes nothing.
\<close>

definition print_uptime :: "proc \<Rightarrow> int \<times> proc" where
  "print_uptime st = (0, st)"

definition dots :: string where
  "dots = CHR '' '' # replicate 69 (CHR ''.'')"

text \<open>
  \<open>print_descr\<close> (lines 367-379).  The length of the padding is computed in
  \<open>size_t\<close> and wraps around when the texts are longer than 60 bytes.  The count
  is then far beyond the end of the array \<open>dots\<close> and of every mapping of the
  process: \<open>write\<close> fails with \<open>EFAULT\<close> and writes nothing.
\<close>

definition print_descr :: "string \<Rightarrow> string \<Rightarrow> proc \<Rightarrow> proc" where
  "print_descr action descr st =
     (let home = [CHR 0x0D, CHR 0x1B, CHR ''['', CHR ''K''];
          st1 = write_fd 2 home st;
          st2 = snd (print_uptime st1);
          st3 = write_fd 2 action st2;
          st4 = write_fd 2 descr st3;
          n = (60 - int (length descr) - int (length action)) mod 2 ^ 64
      in if n \<le> int (length (dots @ [NUL]))
         then write_fd 2 (take (nat n) (dots @ [NUL])) st4
         else st4\<lparr>errno := EFAULT\<rparr>)"

text \<open>\<open>print_result\<close> (lines 381-389).\<close>

definition print_result :: "int \<Rightarrow> proc \<Rightarrow> int \<times> proc" where
  "print_result fail st =
     (if fail \<noteq> 0
      then (fail, write_fd 2 ([CHR '' '', CHR 0x1B] @ ''[7m[FAIL]'' @ [CHR 0x1B] @ ''[0m\<newline>'') st)
      else (fail, write_fd 2 ([CHR '' '', CHR 0x1B] @ ''[1m[ OK ]'' @ [CHR 0x1B] @ ''[0m\<newline>'') st))"

text \<open>
  The replay loop of lines 519-522 on the bytes left in the temporary file.
  \<open>fread\<close> delivers up to \<open>line_size\<close> bytes; \<open>fwrite\<close> is called with the
  size \<open>len\<close> and the count 1, so it returns 1 for a non-empty chunk and 0 for an
  empty one, and that number is what the loop compares with \<open>len\<close>.
\<close>

definition fwrite_stderr :: "string \<Rightarrow> proc \<Rightarrow> nat \<times> proc" where
  "fwrite_stderr chunk st =
     (if 0 < length chunk then (1, write_fd 2 chunk st) else (0, st))"

function replay :: "nat \<Rightarrow> string \<Rightarrow> proc \<Rightarrow> proc" where
  "replay line_size content st =
     (let chunk = take line_size content;
          len = length chunk
      in case fwrite_stderr chunk st of
           (written, st') \<Rightarrow>
             if 0 < len \<and> written = len then replay line_size (drop line_size content) st'
             else st')"
  by pat_completeness auto
termination
  by (relation "measure (\<lambda>(line_size, content, st). length content)") auto

text \<open>
  \<open>run_interactive\<close> (lines 491-527).  \<open>LINE_SIZE\<close> of finit.h is not part of
  the sources and is the parameter \<open>line_size\<close>; \<open>descr\<close> is the text that
  \<open>vsnprintf\<close> formats, cut to the buffer.  The first definition is lines 496-508,
  up to the call of \<open>run\<close>: the saved descriptors and the state in which \<open>run\<close>
  is entered.
\<close>

definition run_interactive_redirect ::
  "nat \<Rightarrow> os \<Rightarrow> proc \<Rightarrow> string \<Rightarrow> int \<times> int \<times> proc" where
  "run_interactive_redirect line_size os st descr =
     (let fp = tmpfile_fd os;
          st0 = (case fp of
                   None \<Rightarrow> st
                 | Some fd \<Rightarrow> st\<lparr>fds := (fds st)(fd \<mapsto> ''tmpfile'')\<rparr>);
          line = take (line_size - 1) (c_str descr);
          st1 = print_descr [] line st0
      in case fp of
           Some fd \<Rightarrow>
             if \<not> debug st1 then
               (case dup os 1 st1 of
                  (oldout, sta) \<Rightarrow>
                    (case dup os 2 sta of
                       (olderr, stb) \<Rightarrow> (oldout, olderr, dup2 fd 2 (dup2 fd 1 stb))))
             else (1, 2, st1)
         | None \<Rightarrow> (1, 2, st1))"

definition run_interactive :: "nat \<Rightarrow> os \<Rightarrow> proc \<Rightarrow> string \<Rightarrow> string \<Rightarrow> int outcome" where
  "run_interactive line_size os st cmd descr =
     (let fp = tmpfile_fd os in
      case run_interactive_redirect line_size os st descr of
        (oldout, olderr, st2) \<Rightarrow>
          (case run os st2 cmd of
             Fault f \<Rightarrow> Fault f
           | Leaves fate st' \<Rightarrow> Leaves fate st'
           | Returns status st3 \<Rightarrow>
               (let st4 = (if fp \<noteq> None \<and> \<not> debug st3
                           then dup2 olderr 2 (dup2 oldout 1 st3) else st3);
                    st5 = snd (print_result status st4);
                    st6 = (if fp \<noteq> None \<and> \<not> debug st5
                           then fclose fp (replay line_size (captured os) st5) else st5)
                in Returns status st6)))"

subsection \<open>\<open>run_parts\<close>\<close>

text \<open>
  The part of the file system that \<open>run_parts\<close> looks at: the entries of each
  directory in the order in which \<open>readdir\<close> delivers them, and the mode that
  \<open>stat\<close> reports for a path.  Both are keyed by the path as resolved against the
  working directory; a path that is not a key does not exist.
\<close>

record dirent =
  d_name :: string
  d_type :: nat

record filesys =
  dirs :: "string \<rightharpoonup> dirent list"
  modes :: "string \<rightharpoonup> 32 word"

definition DT_REG :: nat where
  "DT_REG = 8"

definition S_IXUSR :: "32 word" where
  "S_IXUSR = 0x40"

definition resolve :: "string \<Rightarrow> string \<Rightarrow> string" where
  "resolve wd path =
     (case path of
        [] \<Rightarrow> wd
      | c # cs \<Rightarrow> if c = CHR ''/'' then path else wd @ ''/'' @ path)"

text \<open>
  \<open>opendir\<close> in a process with working directory \<open>wd\<close>: the entries of the
  directory, \<open>None\<close> for the \<open>NULL\<close> result.  The empty path names nothing.
\<close>

definition opendir :: "filesys \<Rightarrow> string \<Rightarrow> string \<Rightarrow> dirent list option" where
  "opendir fs wd path = (if path = [] then None else dirs fs (resolve wd path))"

definition chdir :: "filesys \<Rightarrow> string option \<Rightarrow> proc \<Rightarrow> int \<times> proc" where
  "chdir fs path st =
     (case path of
        None \<Rightarrow> (- 1, st\<lparr>errno := EFAULT\<rparr>)
      | Some p \<Rightarrow>
          if opendir fs (cwd st) p = None then (- 1, st\<lparr>errno := ENOENT\<rparr>)
          else (0, st\<lparr>cwd := resolve (cwd st) p\<rparr>))"

text \<open>
  \<open>strcmp\<close> of the C library on the bytes of two C strings (the bytes before
  the terminators), and the comparison function \<open>cmp\<close> of lines 590-593 that
  \<open>qsort\<close> is given.
\<close>

fun strcmp :: "string \<Rightarrow> string \<Rightarrow> int" where
  "strcmp [] [] = 0"
| "strcmp [] (b # bs) = - int (of_char b)"
| "strcmp (a # as) [] = int (of_char a)"
| "strcmp (a # as) (b # bs) =
     (if a = b then strcmp as bs else int (of_char a) - int (of_char b))"

definition cmp :: "string \<Rightarrow> string \<Rightarrow> int" where
  "cmp s1 s2 = strcmp s1 s2"

text \<open>
  \<open>qsort\<close> of the C library leaves the array ordered by the comparison function;
  which algorithm it uses is not specified.  Insertion sort stands for it here.
\<close>

fun qsort_insert :: "string \<Rightarrow> string list \<Rightarrow> string list" where
  "qsort_insert x [] = [x]"
| "qsort_insert x (y # ys) = (if cmp x y \<le> 0 then x # y # ys else y # qsort_insert x ys)"

definition qsort :: "string list \<Rightarrow> string list" where
  "qsort xs = foldr qsort_insert xs []"

text \<open>
  Line 617: the optional arguments are stored from \<open>args[1]\<close> on, up to and
  including the terminating \<open>NULL\<close> or until the array is full.
\<close>

fun va_loop :: "nat \<Rightarrow> string option list \<Rightarrow> string option list \<Rightarrow> string option list" where
  "va_loop argnum [] args = args"
| "va_loop argnum (a # ap) args =
     (if argnum < NUM_ARGS
      then (if a \<noteq> None then va_loop (argnum + 1) ap (args[argnum := a])
            else args[argnum := a])
      else args)"

text \<open>
  Lines 620-629: the scripts collected from the entries that \<open>readdir\<close> still
  has to deliver; \<open>ent\<close> holds the names collected so far.  An entry is taken
  when it is a regular file, \<open>stat\<close> on its name succeeds and the mode has the
  owner-executable bit; the name is copied with \<open>strdup\<close>.
\<close>

definition runnable :: "filesys \<Rightarrow> string \<Rightarrow> dirent \<Rightarrow> bool" where
  "runnable fs wd e =
     (d_type e = DT_REG \<and>
      (case modes fs (resolve wd (c_str (d_name e))) of
         None \<Rightarrow> False
       | Some st_mode \<Rightarrow> st_mode AND S_IXUSR \<noteq> 0))"

fun collect :: "filesys \<Rightarrow> string \<Rightarrow> dirent list \<Rightarrow> string list \<Rightarrow> string list" where
  "collect fs wd [] ent = ent"
| "collect fs wd (e # es) ent =
     (if runnable fs wd e then
        (if NUM_SCRIPTS \<le> length (ent @ [c_str (d_name e)]) then ent @ [c_str (d_name e)]
         else collect fs wd es (ent @ [c_str (d_name e)]))
      else collect fs wd es ent)"

text \<open>
  Lines 640-655: one script after the other is forked, executed in the child and
  waited for in the parent.  The child calls \<open>execv\<close> straight away, and
  \<open>exit(0)\<close> when that returns.
\<close>

fun run_parts_loop ::
  "os \<Rightarrow> proc \<Rightarrow> string option list \<Rightarrow> string list \<Rightarrow> unit outcome" where
  "run_parts_loop os st args [] = Returns () st"
| "run_parts_loop os st args (e # es) =
     (let args' = args[0 := Some e, 1 := None];
          argv = map the (takeWhile (\<lambda>a. a \<noteq> None) args');
          fate = (if exec_fails os e then Exit 0 else Exec e argv);
          pid = fork_ret os e
      in if pid = 0 then Leaves fate st
         else
           run_parts_loop os
             (st\<lparr>trace := trace st
                  @ (if pid = - 1 then [EForkFailed] else [ESpawn pid fate]) @ [EWaitpid pid]\<rparr>)
             args' es)"

text \<open>
  \<open>run_parts\<close> (lines 595-661); \<open>extra\<close> are the optional arguments before the
  terminating \<open>NULL\<close>.
\<close>

definition run_parts :: "os \<Rightarrow> filesys \<Rightarrow> proc \<Rightarrow> string \<Rightarrow> string list \<Rightarrow> int outcome" where
  "run_parts os fs st dir extra =
     (let oldpwd = (if getcwd_null os then None else Some (cwd st)) in
      case chdir fs (Some dir) st of
        (rc, st1) \<Rightarrow>
          if rc \<noteq> 0 then Returns (- 1) st1
          else
            (case opendir fs (cwd st1) dir of
               None \<Rightarrow> Returns (- 1) st1
             | Some entries \<Rightarrow>
                 (let args = va_loop 1 (map Some extra @ [None]) (replicate NUM_ARGS None);
                      ent = collect fs (cwd st1) entries [];
                      num = length ent
                  in if num = 0 then Returns 0 st1
                     else
                       (case run_parts_loop os st1 args (qsort ent) of
                          Fault f \<Rightarrow> Fault f
                        | Leaves fate st' \<Rightarrow> Leaves fate st'
                        | Returns u st2 \<Rightarrow> Returns 0 (snd (chdir fs oldpwd st2))))))"

text \<open>
  A directory of start scripts as in the specification: \<open>S02b\<close>, \<open>S01a\<close> and a
  \<open>README\<close> that is not executable; and an empty directory.
\<close>

definition ex_fs :: filesys where
  "ex_fs =
     \<lparr>dirs = [''/etc/rc.d'' \<mapsto>
               [\<lparr>d_name = ''.'', d_type = 4\<rparr>,
                \<lparr>d_name = ''S02b'', d_type = 8\<rparr>,
                \<lparr>d_name = ''S01a'', d_type = 8\<rparr>,
                \<lparr>d_name = ''README'', d_type = 8\<rparr>],
             ''/etc/empty.d'' \<mapsto> [\<lparr>d_name = ''.'', d_type = 4\<rparr>],
             ''/'' \<mapsto> []],
      modes = [''/etc/rc.d/S02b'' \<mapsto> 0x81ED,
               ''/etc/rc.d/S01a'' \<mapsto> 0x81ED,
               ''/etc/rc.d/README'' \<mapsto> 0x81A4]\<rparr>"

subsection \<open>\<open>pidfile_read\<close>\<close>

text \<open>A file as \<open>pidfile_read\<close> and \<open>procname_kill\<close> meet it.\<close>

datatype fnode = Missing | Unreadable | Content string

definition EACCES :: int where "EACCES = 13"

text \<open>
  Modelled from the spec: \<open>fexist\<close> is declared outside the sources; the
  specification describes it as the check for a file's existence.
\<close>

definition fexist :: "(string \<Rightarrow> fnode) \<Rightarrow> string \<Rightarrow> bool" where
  "fexist files path = (files path \<noteq> Missing)"

text \<open>
  \<open>fgets(buf, n, fp)\<close> on a freshly opened file: at most \<open>n - 1\<close> bytes, ending
  after the first newline; \<open>None\<close> (the \<open>NULL\<close> result) at end of file.
\<close>

fun take_line :: "nat \<Rightarrow> string \<Rightarrow> string" where
  "take_line 0 cs = []"
| "take_line (Suc k) [] = []"
| "take_line (Suc k) (c # cs) = (if c = CHR ''\<newline>'' then [c] else c # take_line k cs)"

definition fgets :: "nat \<Rightarrow> string \<Rightarrow> string option" where
  "fgets n content = (if content = [] then None else Some (take_line (n - 1) content))"

text \<open>
  \<open>strtoul(s, NULL, 0)\<close> of the C library with a 64-bit \<open>unsigned long\<close>: white
  space, an optional sign, the base taken from the prefix (\<open>0x\<close> 16, \<open>0\<close> 8,
  otherwise 10), the longest run of digits of that base.  The result is the value and
  whether \<open>errno\<close> was set to \<open>ERANGE\<close>; without digits it is 0 and \<open>errno\<close>
  is left alone.
\<close>

definition isspace :: "char \<Rightarrow> bool" where
  "isspace c = (c \<in> set [CHR '' '', CHR 0x09, CHR 0x0A, CHR 0x0B, CHR 0x0C, CHR 0x0D])"

definition isdigit :: "char \<Rightarrow> bool" where
  "isdigit c = (48 \<le> (of_char c :: nat) \<and> (of_char c :: nat) \<le> 57)"

definition digit_val :: "char \<Rightarrow> nat" where
  "digit_val c =
     (let n = (of_char c :: nat) in
      if 48 \<le> n \<and> n \<le> 57 then n - 48
      else if 97 \<le> n \<and> n \<le> 122 then n - 87
      else if 65 \<le> n \<and> n \<le> 90 then n - 55
      else 36)"

definition digits_value :: "nat \<Rightarrow> string \<Rightarrow> int" where
  "digits_value base ds = foldl (\<lambda>acc c. acc * int base + int (digit_val c)) 0 ds"

definition strtoul :: "string \<Rightarrow> 64 word \<times> bool" where
  "strtoul s =
     (let s1 = dropWhile isspace (c_str s);
          neg = (s1 \<noteq> [] \<and> hd s1 = CHR ''-'');
          s2 = (if s1 \<noteq> [] \<and> (hd s1 = CHR ''-'' \<or> hd s1 = CHR ''+'') then tl s1 else s1);
          hex = (case s2 of
                   a # b # c # r \<Rightarrow> a = CHR ''0'' \<and> (b = CHR ''x'' \<or> b = CHR ''X'') \<and> digit_val c < 16
                 | _ \<Rightarrow> False);
          base = (if hex then 16 else if s2 \<noteq> [] \<and> hd s2 = CHR ''0'' then 8 else 10);
          s3 = (if hex then drop 2 s2 else s2);
          v = digits_value base (takeWhile (\<lambda>c. digit_val c < base) s3)
      in if 2 ^ 64 \<le> v then (- 1, True)
         else (word_of_int (if neg then - v else v), False))"

text \<open>
  \<open>pidfile_read\<close> (lines 151-178): the result and \<open>errno\<close> afterwards.
  \<open>pid_t\<close> is a 32-bit \<open>int\<close>, to which the \<open>unsigned long\<close> is cut.
\<close>

definition pidfile_read :: "(string \<Rightarrow> fnode) \<Rightarrow> int \<Rightarrow> string option \<Rightarrow> int \<times> int" where
  "pidfile_read files err pidfile =
     (case pidfile of
        None \<Rightarrow> (- 1, EINVAL)
      | Some path \<Rightarrow>
          if \<not> fexist files path then (- 1, ENOENT)
          else
            (case files path of
               Content text \<Rightarrow>
                 (case fgets 16 text of
                    None \<Rightarrow> (0, err)
                  | Some buf \<Rightarrow>
                      (case strtoul buf of
                         (v, erange) \<Rightarrow>
                           if erange then (0, ERANGE)
                           else (sint (ucast v :: 32 word), 0)))
             | _ \<Rightarrow> (- 1, EACCES)))"

definition ex_files :: "string \<Rightarrow> fnode" where
  "ex_files path =
     (if path = ''/var/run/syslogd.pid'' then Content ''412\<newline>''
      else if path = ''/var/run/init.pid'' then Content ''1\<newline>''
      else if path = ''/var/run/neg.pid'' then Content ''-1\<newline>''
      else if path = ''/var/run/empty.pid'' then Content []
      else if path = ''/var/run/junk.pid'' then Content ''junk\<newline>''
      else if path = ''/var/run/secret.pid'' then Unreadable
      else Missing)"

subsection \<open>\<open>procname_kill\<close>\<close>

text \<open>
  \<open>strncmp\<close> of the C library on the bytes of two C strings; the count is a
  \<open>size_t\<close>, here an \<open>int\<close> in the range of that type.
\<close>

fun strncmp :: "string \<Rightarrow> string \<Rightarrow> int \<Rightarrow> int" where
  "strncmp [] [] n = 0"
| "strncmp [] (b # bs) n = (if n \<le> 0 then 0 else - int (of_char b))"
| "strncmp (a # as) [] n = (if n \<le> 0 then 0 else int (of_char a))"
| "strncmp (a # as) (b # bs) n =
     (if n \<le> 0 then 0
      else if a = b then strncmp as bs (n - 1)
      else int (of_char a) - int (of_char b))"

text \<open>
  \<open>atoi\<close> of the C library: white space, an optional sign, decimal digits.  The
  value is not cut to the range of \<open>int\<close>, where C leaves the result undefined.
\<close>

definition atoi :: "string \<Rightarrow> int" where
  "atoi s =
     (let s1 = dropWhile isspace (c_str s);
          neg = (s1 \<noteq> [] \<and> hd s1 = CHR ''-'');
          s2 = (if s1 \<noteq> [] \<and> (hd s1 = CHR ''-'' \<or> hd s1 = CHR ''+'') then tl s1 else s1);
          v = digits_value 10 (takeWhile isdigit s2)
      in if neg then - v else v)"

text \<open>Line 318: \<open>snprintf\<close> into \<open>path[32]\<close> keeps at most 31 bytes.\<close>

definition status_path :: "string \<Rightarrow> string" where
  "status_path name = take 31 (''/proc/'' @ c_str name @ ''/status'')"

text \<open>
  One pass of the loop of lines 313-338, for the entry of \<open>/proc\<close> that
  \<open>readdir\<close> delivers.  \<open>line\<close> is the array \<open>line[64]\<close> with whatever the
  previous passes left in it: \<open>fgets\<close> overwrites its front with the first line of
  the status file and a terminator, and \<open>pname\<close> is the C string at offset 6 of the
  array.  \<open>kill_ok pid signo\<close> tells whether \<open>kill\<close> succeeds.  The result is the
  array, the counter and the state afterwards.
\<close>

definition procname_kill_step ::
  "(string \<Rightarrow> fnode) \<Rightarrow> (int \<Rightarrow> int \<Rightarrow> bool) \<Rightarrow> string \<Rightarrow> int \<Rightarrow> string
     \<Rightarrow> char list \<Rightarrow> int \<Rightarrow> proc \<Rightarrow> fault + (char list \<times> int \<times> proc)" where
  "procname_kill_step files kill_ok name signo entry line result st =
     (if \<not> (case entry of [] \<Rightarrow> False | c # cs \<Rightarrow> isdigit c) then Inr (line, result, st)
      else
        (case files (status_path entry) of
           Content text \<Rightarrow>
             (case fgets 64 text of
                None \<Rightarrow> Inr (line, result, st)
              | Some l \<Rightarrow>
                  (let line' = l @ [NUL] @ drop (length l + 1) line in
                   case strcspn (drop 6 line') [] of
                     None \<Rightarrow> Inl OutOfBounds
                   | Some len \<Rightarrow>
                       if strncmp (take len (drop 6 line')) (c_str name)
                            ((int len - 1) mod 2 ^ 64) = 0
                       then
                         (let pid = atoi entry;
                              st' = st\<lparr>trace := trace st @ [EKill pid signo]\<rparr>
                          in if kill_ok pid signo then Inr (line', result + 1, st')
                             else Inr (line', result, st'))
                       else Inr (line', result, st)))
         | _ \<Rightarrow> Inr (line, result, st)))"

fun procname_kill_loop ::
  "(string \<Rightarrow> fnode) \<Rightarrow> (int \<Rightarrow> int \<Rightarrow> bool) \<Rightarrow> string \<Rightarrow> int \<Rightarrow> string list
     \<Rightarrow> char list \<Rightarrow> int \<Rightarrow> proc \<Rightarrow> fault + (int \<times> proc)" where
  "procname_kill_loop files kill_ok name signo [] line result st = Inr (result, st)"
| "procname_kill_loop files kill_ok name signo (entry # entries) line result st =
     (case procname_kill_step files kill_ok name signo entry line result st of
        Inl f \<Rightarrow> Inl f
      | Inr (line', result', st') \<Rightarrow>
          procname_kill_loop files kill_ok name signo entries line' result' st')"

text \<open>
  \<open>procname_kill\<close> (lines 299-343).  \<open>procdir\<close> are the names in \<open>/proc\<close>,
  \<open>None\<close> when \<open>opendir\<close> fails; \<open>line0\<close> is the content of the uninitialised
  array \<open>line\<close>.
\<close>

definition procname_kill ::
  "(string \<Rightarrow> fnode) \<Rightarrow> string list option \<Rightarrow> (int \<Rightarrow> int \<Rightarrow> bool) \<Rightarrow> char list
     \<Rightarrow> proc \<Rightarrow> string option \<Rightarrow> int \<Rightarrow> fault + (int \<times> proc)" where
  "procname_kill files procdir kill_ok line0 st name signo =
     (case procdir of
        None \<Rightarrow> Inr (0, st\<lparr>errno := EINVAL\<rparr>)
      | Some entries \<Rightarrow>
          (case name of
             None \<Rightarrow> Inr (0, st\<lparr>errno := EINVAL\<rparr>)
           | Some n \<Rightarrow> procname_kill_loop files kill_ok n signo entries line0 0 st))"

text \<open>
  A process table with \<open>init\<close> (1), \<open>sys\<close> (7), two \<open>syslogd\<close> (412 and 413,
  the second gone by the time it is signalled) and \<open>getty\<close> (500).
\<close>

definition ex_procfs :: "string \<Rightarrow> fnode" where
  "ex_procfs path =
     (if path = ''/proc/1/status'' then Content (''Name:'' @ [CHR 0x09] @ ''init\<newline>State: S\<newline>'')
      else if path = ''/proc/7/status'' then Content (''Name:'' @ [CHR 0x09] @ ''sys\<newline>State: S\<newline>'')
      else if path = ''/proc/412/status'' then Content (''Name:'' @ [CHR 0x09] @ ''syslogd\<newline>State: S\<newline>'')
      else if path = ''/proc/413/status'' then Content (''Name:'' @ [CHR 0x09] @ ''syslogd\<newline>State: S\<newline>'')
      else if path = ''/proc/500/status'' then Content (''Name:'' @ [CHR 0x09] @ ''getty\<newline>State: S\<newline>'')
      else Missing)"

definition ex_procdir :: "string list" where
  "ex_procdir = [''.'', ''..'', ''1'', ''7'', ''cpuinfo'', ''412'', ''413'', ''500'', ''self'']"

definition ex_kill_ok :: "int \<Rightarrow> int \<Rightarrow> bool" where
  "ex_kill_ok pid signo = (pid \<noteq> 413)"

subsection \<open>Reading outcomes\<close>

text \<open>The value a call returns, the fate with which a forked child leaves it, and the
  state in which the call ends.\<close>

definition retval :: "'a outcome \<Rightarrow> 'a option" where
  "retval out = (case out of Returns r st \<Rightarrow> Some r | _ \<Rightarrow> None)"

definition fault_of :: "'a outcome \<Rightarrow> fault option" where
  "fault_of out = (case out of Fault f \<Rightarrow> Some f | _ \<Rightarrow> None)"

definition fate_of :: "'a outcome \<Rightarrow> child_fate option" where
  "fate_of out = (case out of Leaves fate st \<Rightarrow> Some fate | _ \<Rightarrow> None)"

definition end_state :: "'a outcome \<Rightarrow> proc option" where
  "end_state out =
     (case out of Fault f \<Rightarrow> None | Returns r st \<Rightarrow> Some st | Leaves fate st \<Rightarrow> Some st)"

definition end_trace :: "'a outcome \<Rightarrow> event list option" where
  "end_trace out = map_option trace (end_state out)"

definition end_cwd :: "'a outcome \<Rightarrow> string option" where
  "end_cwd out = map_option cwd (end_state out)"

definition end_errno :: "'a outcome \<Rightarrow> int option" where
  "end_errno out = map_option errno (end_state out)"

definition end_signal :: "nat \<Rightarrow> 'a outcome \<Rightarrow> disposition option" where
  "end_signal signo out = map_option (\<lambda>st. sigtab st signo) (end_state out)"

text \<open>The system seen from a child: \<open>fork\<close> has returned 0.\<close>

definition in_child :: "os \<Rightarrow> os" where
  "in_child os = os\<lparr>fork_ret := (\<lambda>file. 0)\<rparr>"

subsection \<open>The process table as \<open>procname_kill\<close> is meant to see it\<close>

text \<open>
  The first line of a status file is \<open>Name:\<close>, a tab, the process name and a
  newline.  \<open>status_name\<close> reads the name from such a file, provided it has no
  \<open>NUL\<close> byte and the line fits the 63 bytes that \<open>fgets\<close> delivers.
\<close>

definition status_name :: "string \<Rightarrow> string option" where
  "status_name text =
     (let cand = takeWhile (\<lambda>c. c \<noteq> CHR ''\<newline>'') (drop 6 text) in
      if take 6 text = ''Name:'' @ [CHR 0x09] \<and> length cand < length (drop 6 text) \<and>
         NUL \<notin> set cand \<and> length cand \<le> 56
      then Some cand else None)"

definition numeric :: "string \<Rightarrow> bool" where
  "numeric entry = (case entry of [] \<Rightarrow> False | c # cs \<Rightarrow> isdigit c)"

text \<open>
  An entry of \<open>/proc\<close> is regular for \<open>procname_kill\<close> when it is skipped (not
  numeric, or its status file cannot be opened or is empty) or its status file has the
  form above.
\<close>

definition regular_entry :: "(string \<Rightarrow> fnode) \<Rightarrow> string \<Rightarrow> bool" where
  "regular_entry files entry =
     (if numeric entry
      then (case files (status_path entry) of
              Content text \<Rightarrow> text = [] \<or> status_name text \<noteq> None
            | _ \<Rightarrow> True)
      else True)"

text \<open>
  The entries whose process name is a prefix of the target name (the target name
  itself included).
\<close>

definition name_is_prefix :: "(string \<Rightarrow> fnode) \<Rightarrow> string \<Rightarrow> string \<Rightarrow> bool" where
  "name_is_prefix files name entry =
     (numeric entry \<and>
      (case files (status_path entry) of
         Content text \<Rightarrow>
           (case status_name text of
              Some cand \<Rightarrow> prefix cand (c_str name)
            | None \<Rightarrow> False)
       | _ \<Rightarrow> False))"

text \<open>What a call of \<open>procname_kill\<close> returned and which signals it sent.\<close>

definition kills_of :: "fault + (int \<times> proc) \<Rightarrow> (int \<times> event list) option" where
  "kills_of res = (case res of Inl f \<Rightarrow> None | Inr (n, st) \<Rightarrow> Some (n, trace st))"

subsection \<open>The scripts that \<open>run_parts\<close> is meant to run\<close>



subsection \<open>Command lines as the tokenizer of \<open>run\<close> takes them apart\<close>

text \<open>
  A command line that the tokenizer handles within its buffer is a first word, a
  blank, a row of items and a last word.  A plain item is a word and the blank that
  ends it.  A quoted item is an opening quote character, a body without that
  character, the same character again and one more byte.  \<open>raw\<close> is the text of
  an item on the command line, \<open>token\<close> the argument it is to become: the word,
  or the quoted span with both of its quote characters.
\<close>

datatype item = Plain string char | Quoted char string char

fun raw :: "item \<Rightarrow> string" where
  "raw (Plain w sp) = w @ [sp]"
| "raw (Quoted q body c) = q # body @ [q, c]"

fun token :: "item \<Rightarrow> string" where
  "token (Plain w sp) = w"
| "token (Quoted q body c) = q # body @ [q]"

definition blank :: "char \<Rightarrow> bool" where
  "blank c = (c = CHR 0x09 \<or> c = CHR '' '')"

definition is_quote :: "char \<Rightarrow> bool" where
  "is_quote c = (c = CHR 0x27 \<or> c = CHR 0x22)"

text \<open>A word has no blank in it; it may be empty, as between two blanks in a row.\<close>

definition plain_word :: "string \<Rightarrow> bool" where
  "plain_word w = (\<forall>c \<in> set w. c \<noteq> NUL \<and> \<not> blank c)"

definition unquoted :: "string \<Rightarrow> bool" where
  "unquoted w = (case w of [] \<Rightarrow> True | c # cs \<Rightarrow> \<not> is_quote c)"

fun item_ok :: "item \<Rightarrow> bool" where
  "item_ok (Plain w sp) = (plain_word w \<and> unquoted w \<and> blank sp)"
| "item_ok (Quoted q body c) =
     (is_quote q \<and> (\<forall>x \<in> set body. x \<noteq> NUL \<and> x \<noteq> q) \<and> c \<noteq> NUL)"

definition command_line :: "string \<Rightarrow> char \<Rightarrow> item list \<Rightarrow> string \<Rightarrow> string" where
  "command_line w0 sp0 items wn = w0 @ sp0 # concat (map raw items) @ wn"

definition tokens :: "string \<Rightarrow> item list \<Rightarrow> string \<Rightarrow> string list" where
  "tokens w0 items wn = w0 # map token items @ [wn]"

section \<open>Properties\<close>

subsection \<open>Wait statuses\<close>

lemma word_7f_mask: "(0x7f :: 32 word) = mask 7"
  by (simp add: mask_eq_exp_minus_1)

lemma word_ff00_mask: "(0xff00 :: 32 word) = push_bit 8 (mask 8)"
  by (simp add: mask_eq_exp_minus_1)

lemma bit_int_128: "bit (0x80 :: int) n \<longleftrightarrow> n = 7"
proof -
  have "bit (push_bit 7 (1::int)) n \<longleftrightarrow> n = 7"
    unfolding bit_push_bit_iff bit_1_iff by auto
  then show ?thesis by simp
qed

lemma of_nat_take_bit_7: "n < 128 \<Longrightarrow> (of_nat n :: 32 word) = take_bit 7 (of_nat n)"
  by (simp add: take_bit_of_nat take_bit_nat_eq_self)

lemma unat_of_nat_small: "n < 256 \<Longrightarrow> unat (of_nat n :: 32 word) = n"
  by (simp add: unat_of_nat)

lemma WEXITSTATUS_exited: "WEXITSTATUS (wait_status (ExitedNormally c)) = ucast c"
  unfolding WEXITSTATUS_def wait_status_def child_state.case word_ff00_mask
  by (rule bit_word_eqI) (auto simp: bit_simps dest: bit_imp_le_length)

lemma WTERMSIG_exited: "WTERMSIG (wait_status (ExitedNormally c)) = 0"
  unfolding WTERMSIG_def wait_status_def child_state.case word_7f_mask
  by (rule bit_word_eqI) (auto simp: bit_simps)

lemma WEXITSTATUS_killed:
  assumes "n < 128"
  shows "WEXITSTATUS (wait_status (KilledBySignal n core)) = 0"
  unfolding WEXITSTATUS_def wait_status_def child_state.case word_ff00_mask
  apply (subst of_nat_take_bit_7 [OF assms])
  apply (rule bit_word_eqI)
  apply (auto simp: bit_simps bit_int_128)
  done

lemma WTERMSIG_killed:
  assumes "n < 128"
  shows "WTERMSIG (wait_status (KilledBySignal n core)) = of_nat n"
  unfolding WTERMSIG_def wait_status_def child_state.case word_7f_mask
  apply (subst (2) of_nat_take_bit_7 [OF assms])
  apply (subst of_nat_take_bit_7 [OF assms])
  apply (rule bit_word_eqI)
  apply (auto simp: bit_simps bit_int_128)
  done

lemma unat_termsig_less: "unat (s AND (0x7f::32 word)) < 128"
proof -
  have "unat (take_bit 7 s) = take_bit 7 (unat s)"
    by (simp add: unsigned_take_bit_eq)
  also have "\<dots> < 2 ^ 7"
    by (rule take_bit_nat_less_exp)
  finally show ?thesis
    by (simp add: word_7f_mask take_bit_eq_mask)
qed

lemma ucast_of_nat_8: "(ucast (of_nat k :: 32 word) :: 8 word) = of_nat k"
  by transfer (simp add: take_bit_of_nat)

lemma sint_of_nat_8: "m < 128 \<Longrightarrow> sint (of_nat m :: 8 word) = int m"
  by (simp add: signed_of_nat signed_take_bit_int_eq_self)

text \<open>
  \<open>WIFSIGNALED\<close> holds exactly for the statuses whose low seven bits are a signal
  number: not 0 (exited) and not 0x7f (stopped).
\<close>

lemma WIFSIGNALED_iff:
  "WIFSIGNALED s \<longleftrightarrow> 0 < unat (WTERMSIG s) \<and> unat (WTERMSIG s) < 127"
proof -
  define k where "k = unat (s AND 0x7f)"
  have k: "k < 128"
    unfolding k_def by (rule unat_termsig_less)
  have sk: "s AND 0x7f = of_nat k"
    unfolding k_def by simp
  have "(ucast ((s AND 0x7f) + 1) :: 8 word) = of_nat (Suc k)"
    unfolding sk using ucast_of_nat_8 [of "Suc k"] by (simp add: add.commute)
  then have w: "WIFSIGNALED s \<longleftrightarrow> 0 < drop_bit 1 (sint (of_nat (Suc k) :: 8 word))"
    by (simp add: WIFSIGNALED_def)
  have t: "unat (WTERMSIG s) = k"
    by (simp add: WTERMSIG_def k_def)
  show ?thesis
  proof (cases "k = 127")
    case True
    then show ?thesis
      unfolding w t by simp
  next
    case False
    with k have "Suc k < 128"
      by simp
    then have "sint (of_nat (Suc k) :: 8 word) = int (Suc k)"
      by (rule sint_of_nat_8)
    then show ?thesis
      unfolding w t using False k by (simp add: drop_bit_eq_div) presburger
  qed
qed

lemma sint_ucast_8: "sint (ucast (c :: 8 word) :: 32 word) = uint c"
proof -
  have "uint c < 2 ^ 8"
    using uint_lt2p [of c] by simp
  then have hi: "uint c < 2 ^ 31"
    by simp
  have "- (2 ^ 31) \<le> (0::int)"
    by simp
  also have "0 \<le> uint c"
    by simp
  finally have lo: "- (2 ^ 31) \<le> uint c" .
  from lo hi show ?thesis
    by (simp add: signed_ucast_eq signed_take_bit_int_eq_self)
qed

lemma run_result_exited: "run_result (wait_status (ExitedNormally c)) = uint c"
  by (simp add: run_result_def WIFEXITED_def WTERMSIG_exited WEXITSTATUS_exited sint_ucast_8)

lemma run_result_killed:
  assumes "0 < n" and "n < 127"
  shows "run_result (wait_status (KilledBySignal n core)) = 1"
proof -
  from assms have n: "n < 128"
    by simp
  have u: "unat (WTERMSIG (wait_status (KilledBySignal n core))) = n"
    using assms by (simp add: WTERMSIG_killed [OF n] unat_of_nat_small)
  then have "\<not> WIFEXITED (wait_status (KilledBySignal n core))"
    unfolding WIFEXITED_def using assms by auto
  moreover have "WIFSIGNALED (wait_status (KilledBySignal n core))"
    unfolding WIFSIGNALED_iff u using assms by simp
  ultimately show ?thesis
    by (simp add: run_result_def WEXITSTATUS_killed [OF n])
qed

lemma exited_not_signaled: "WIFEXITED s \<Longrightarrow> \<not> WIFSIGNALED s"
  by (simp add: WIFSIGNALED_iff WIFEXITED_def)

text \<open>Whatever the status word, a status that reads as signalled never maps to 0.\<close>

lemma run_result_signaled_nonzero: "WIFSIGNALED s \<Longrightarrow> run_result s \<noteq> 0"
  by (auto simp: run_result_def Let_def dest: exited_not_signaled)

lemma trace_fclose [simp]: "trace (fclose fp st) = trace st"
  by (simp add: fclose_def split: option.splits)

subsection \<open>The result of \<open>run\<close>\<close>

text \<open>
  Claim C1.  When \<open>run\<close> returns after having spawned a child (the trace grew by the
  spawn and the wait on that pid) and \<open>waitpid\<close> did not fail, the value returned is
  the child's exit code if the child exited, and the fixed value 1 if a signal killed
  it, whatever the signal number and whether or not core was dumped; so it is never 0
  for a killed child.
\<close>

theorem run_result_mapping:
  assumes ret: "run os st cmd = Returns r st'"
    and spawned: "trace st' = trace st @ [ESpawn pid fate, EWaitpid pid]"
    and waited: "wait_errno os pid = None"
    and valid: "valid_end (child_end os fate)"
  shows "r = (case child_end os fate of
                ExitedNormally code \<Rightarrow> uint code
              | KilledBySignal signum core \<Rightarrow> 1)"
proof -
  from ret spawned waited have "r = run_result (reaped os fate)"
    by (auto simp: run_def Let_def split: if_splits sum.splits prod.splits option.splits)
  with valid show ?thesis
    by (auto simp: reaped_def valid_end_def run_result_exited run_result_killed
        split: child_state.splits)
qed

lemma run_split_NULL: "run_split cmd = Inr (buf, args, i) \<Longrightarrow> args ! i = None"
  by (auto simp: run_split_def split: sum.splits prod.splits)

lemma ex_os_simps [simp]:
  "strdup_null ex_os = False"
  "devnull_fd ex_os = Some 3"
  "fork_ret ex_os f = (if f = ''S01a'' then 101 else if f = ''S02b'' then 102 else 100)"
  "exec_fails ex_os f = (f = ''/bin/missing'')"
  "wait_errno ex_os p = None"
  "tmpfile_fd ex_os = Some 4"
  "getcwd_null ex_os = False"
  by (simp_all add: ex_os_def)

lemma prog_end_ex_os:
  "prog_end ex_os f = (if f = ''/bin/false'' then ExitedNormally 1
                          else if f = ''/bin/sleep'' then KilledBySignal 9 False
                          else ExitedNormally 0)"
  by (simp add: ex_os_def)

theorem run_result_mapping_witness:
  "\<exists>st'. run ex_os ex_proc ''/bin/sleep 60'' = Returns 1 st' \<and>
     trace st' = trace ex_proc
       @ [ESpawn 100 (Exec ''/bin/sleep'' [''/bin/sleep'', ''60'']), EWaitpid 100] \<and>
     wait_errno ex_os 100 = None \<and>
     valid_end (child_end ex_os (Exec ''/bin/sleep'' [''/bin/sleep'', ''60''])) \<and>
     child_end ex_os (Exec ''/bin/sleep'' [''/bin/sleep'', ''60'']) = KilledBySignal 9 False"
proof -
  let ?fate = "Exec ''/bin/sleep'' [''/bin/sleep'', ''60'']"
  have a: "run_argv ''/bin/sleep 60'' = Inr [''/bin/sleep'', ''60'']"
    by code_simp
  then obtain buf args i where s: "run_split ''/bin/sleep 60'' = Inr (buf, args, i)"
    and v: "argv_of buf args = [''/bin/sleep'', ''60'']"
    by (auto simp: run_argv_def split: sum.splits)
  have n: "args ! i = None"
    using s by (rule run_split_NULL)
  have "\<exists>r st'. run ex_os ex_proc ''/bin/sleep 60'' = Returns r st' \<and>
     trace st' = trace ex_proc @ [ESpawn 100 ?fate, EWaitpid 100]"
    by (simp add: run_def s v n Let_def run_child_def)
  then obtain r st' where r: "run ex_os ex_proc ''/bin/sleep 60'' = Returns r st'"
    and t: "trace st' = trace ex_proc @ [ESpawn 100 ?fate, EWaitpid 100]"
    by blast
  have w: "wait_errno ex_os 100 = None"
    by simp
  have e: "child_end ex_os ?fate = KilledBySignal 9 False"
    by (simp add: child_end_def prog_end_ex_os)
  have v: "valid_end (child_end ex_os ?fate)"
    by (simp add: e valid_end_def)
  from run_result_mapping [OF r t w v] have "r = 1"
    by (simp add: e)
  with r t w e v show ?thesis
    by blast
qed

subsection \<open>What \<open>run\<close> does once the command line is split\<close>

lemma fst_run_child:
  "fst (run_child os st fp argv) =
     (if exec_fails os (hd argv) then Exit 1 else Exec (hd argv) argv)"
  by (simp add: run_child_def Let_def)

text \<open>
  In the parent, with a successful \<open>fork\<close> and \<open>waitpid\<close>: the value returned,
  the trace and \<open>errno\<close>.  The test of line 427 plays no part, since \<open>args[i]\<close> has
  just been set to \<open>NULL\<close>.
\<close>

lemma run_spawns:
  assumes "run_argv cmd = Inr argv" and "\<not> strdup_null os"
    and "fork_ret os (hd argv) = pid" and "pid \<noteq> 0" and "pid \<noteq> - 1"
    and "wait_errno os pid = None"
  shows "retval (run os st cmd) =
           Some (run_result
             (reaped os (if exec_fails os (hd argv) then Exit 1 else Exec (hd argv) argv)))"
    and "end_trace (run os st cmd) =
           Some (trace st
             @ [ESpawn pid (if exec_fails os (hd argv) then Exit 1 else Exec (hd argv) argv),
                EWaitpid pid])"
    and "end_errno (run os st cmd) = Some (errno st)"
  using assms
  by (auto simp: run_def run_argv_def retval_def end_trace_def end_errno_def end_state_def
      Let_def run_child_def fclose_def
      split: sum.splits prod.splits option.splits dest: run_split_NULL)

lemma run_result_0: "run_result (wait_status (ExitedNormally 0)) = 0"
  using run_result_exited [of 0] by simp

lemma run_result_1: "run_result (wait_status (ExitedNormally 1)) = 1"
  using run_result_exited [of 1] by simp

subsection \<open>Too many arguments\<close>

lemma run_argv_17:
  "run_argv ''a b c d e f g h i j k l m n o p q'' =
     Inr [''a'', ''b'', ''c'', ''d'', ''e'', ''f'', ''g'', ''h'', ''i'', ''j'', ''k'', ''l'',
          ''m'', ''n'', ''o'', ''p'']"
  by code_simp

text \<open>
  Claim C5 asks that a command line with more than 16 tokens makes \<open>run\<close> set
  \<open>errno\<close> to \<open>EOVERFLOW\<close> and return failure before any \<open>fork\<close>.  The code
  tests \<open>args[i]\<close> right after storing \<open>NULL\<close> there, so the test never fires:
  on a line of 17 tokens \<open>run\<close> forks, executes the first 16 tokens, leaves
  \<open>errno\<close> as it was and returns the command's status 0.
\<close>

theorem run_overflow_unreported:
  "retval (run ex_os ex_proc ''a b c d e f g h i j k l m n o p q'') = Some 0 \<and>
   end_errno (run ex_os ex_proc ''a b c d e f g h i j k l m n o p q'') = Some 0 \<and>
   end_trace (run ex_os ex_proc ''a b c d e f g h i j k l m n o p q'') =
     Some [ESpawn 100
            (Exec ''a'' [''a'', ''b'', ''c'', ''d'', ''e'', ''f'', ''g'', ''h'', ''i'', ''j'',
                         ''k'', ''l'', ''m'', ''n'', ''o'', ''p'']),
           EWaitpid 100]"
  using run_spawns [OF run_argv_17, of ex_os 100 ex_proc]
  by (simp add: reaped_def child_end_def prog_end_ex_os run_result_0 ex_proc_def)

subsection \<open>Failure of \<open>exec\<close>\<close>

lemma argv_missing: "run_argv ''/bin/missing x'' = Inr [''/bin/missing'', ''x'']"
  by code_simp
lemma argv_false: "run_argv ''/bin/false x'' = Inr [''/bin/false'', ''x'']"
  by code_simp
lemma argv_sleep: "run_argv ''/bin/sleep 60'' = Inr [''/bin/sleep'', ''60'']"
  by code_simp

lemma run_result_kill_9: "run_result (wait_status (KilledBySignal 9 False)) = 1"
  by (rule run_result_killed) simp_all

text \<open>
  Claim C9 calls the status of a failed \<open>exec\<close> reserved, so that the parent can
  tell it from the command's own exit codes and from the code for death by a signal.
  It is not: \<open>run\<close> returns 1 when \<open>/bin/missing\<close> cannot be executed, 1 when
  \<open>/bin/false\<close> runs and exits with 1, and 1 when \<open>/bin/sleep\<close> is killed.
\<close>

theorem exec_failure_status_shared:
  "retval (run ex_os ex_proc ''/bin/missing x'') = Some 1 \<and>
   end_trace (run ex_os ex_proc ''/bin/missing x'') =
     Some [ESpawn 100 (Exit 1), EWaitpid 100] \<and>
   retval (run ex_os ex_proc ''/bin/false x'') = Some 1 \<and>
   end_trace (run ex_os ex_proc ''/bin/false x'') =
     Some [ESpawn 100 (Exec ''/bin/false'' [''/bin/false'', ''x'']), EWaitpid 100] \<and>
   child_end ex_os (Exec ''/bin/false'' [''/bin/false'', ''x'']) = ExitedNormally 1 \<and>
   retval (run ex_os ex_proc ''/bin/sleep 60'') = Some 1 \<and>
   child_end ex_os (Exec ''/bin/sleep'' [''/bin/sleep'', ''60'']) = KilledBySignal 9 False"
  using run_spawns [OF argv_missing, of ex_os 100 ex_proc]
    run_spawns [OF argv_false, of ex_os 100 ex_proc]
    run_spawns [OF argv_sleep, of ex_os 100 ex_proc]
  by (simp add: reaped_def child_end_def prog_end_ex_os run_result_1 run_result_kill_9 ex_proc_def)

text \<open>
  Claim C9 as amended.  When \<open>exec\<close> fails in the child forked by \<open>run\<close>, the
  child terminates at once with exit status 1 (in the child \<open>run\<close> ends in
  \<open>_exit(1)\<close>, and the parent's trace shows the child with that fate), and
  \<open>run\<close> returns the nonzero value 1 in the parent.
\<close>

theorem run_exec_failure:
  assumes "run_argv cmd = Inr argv" and "\<not> strdup_null os"
    and "fork_ret os (hd argv) = pid" and "pid \<noteq> 0" and "pid \<noteq> - 1"
    and "wait_errno os pid = None"
    and "exec_fails os (hd argv)"
  shows "end_trace (run os st cmd) = Some (trace st @ [ESpawn pid (Exit 1), EWaitpid pid]) \<and>
         retval (run os st cmd) = Some 1 \<and>
         fate_of (run (in_child os) st cmd) = Some (Exit 1)"
proof -
  have "fate_of (run (in_child os) st cmd) = Some (Exit 1)"
    using assms
    by (auto simp: run_def run_argv_def fate_of_def in_child_def Let_def run_child_def
        split: sum.splits prod.splits option.splits dest: run_split_NULL)
  then show ?thesis
  using run_spawns [OF assms(1-6), of st] assms(7)
  by (simp add: reaped_def child_end_def run_result_1)
qed

theorem run_exec_failure_witness:
  "run_argv ''/bin/missing x'' = Inr [''/bin/missing'', ''x''] \<and>
   \<not> strdup_null ex_os \<and>
   fork_ret ex_os (hd [''/bin/missing'', ''x'']) = 100 \<and>
   wait_errno ex_os 100 = None \<and>
   exec_fails ex_os (hd [''/bin/missing'', ''x'']) \<and>
   end_trace (run ex_os ex_proc ''/bin/missing x'') =
     Some (trace ex_proc @ [ESpawn 100 (Exit 1), EWaitpid 100]) \<and>
   retval (run ex_os ex_proc ''/bin/missing x'') = Some 1 \<and>
   fate_of (run (in_child ex_os) ex_proc ''/bin/missing x'') = Some (Exit 1)"
  using run_exec_failure [OF argv_missing, of ex_os 100 ex_proc] argv_missing
  by simp

subsection \<open>\<open>run_interactive\<close>\<close>

text \<open>
  What \<open>run\<close> returns, and whether it faults or ends in the child, depends on the
  command line and the answers of the system only, not on the state it is entered in.
\<close>

lemma run_state_independent:
  "retval (run os st cmd) = retval (run os st' cmd)"
  "fault_of (run os st cmd) = fault_of (run os st' cmd)"
  "fate_of (run os st cmd) = fate_of (run os st' cmd)"
  by (auto simp: run_def retval_def fault_of_def fate_of_def Let_def run_child_def
      split: sum.splits prod.splits option.splits)

text \<open>
  Claim C10.  \<open>run_interactive\<close> returns exactly what its inner call of \<open>run\<close>
  returns (and faults or ends in a forked child exactly when that call does); the
  progress line, the redirection and the replay do not touch the status.  It is also
  what \<open>run\<close> returns when called directly in the caller's state.
\<close>

theorem run_interactive_status:
  "retval (run_interactive line_size os st cmd descr) =
     retval (run os (snd (snd (run_interactive_redirect line_size os st descr))) cmd) \<and>
   fault_of (run_interactive line_size os st cmd descr) =
     fault_of (run os (snd (snd (run_interactive_redirect line_size os st descr))) cmd) \<and>
   fate_of (run_interactive line_size os st cmd descr) =
     fate_of (run os (snd (snd (run_interactive_redirect line_size os st descr))) cmd) \<and>
   retval (run_interactive line_size os st cmd descr) = retval (run os st cmd)"
proof -
  let ?inner = "run os (snd (snd (run_interactive_redirect line_size os st descr))) cmd"
  have "retval (run_interactive line_size os st cmd descr) = retval ?inner \<and>
    fault_of (run_interactive line_size os st cmd descr) = fault_of ?inner \<and>
    fate_of (run_interactive line_size os st cmd descr) = fate_of ?inner"
    by (simp add: run_interactive_def Let_def retval_def fault_of_def fate_of_def
        split: prod.splits outcome.splits)
  moreover have "retval ?inner = retval (run os st cmd)"
    by (rule run_state_independent)
  ultimately show ?thesis
    by simp
qed

theorem run_interactive_status_witness:
  "retval (run_interactive 1024 ex_os ex_proc ''/bin/false x'' ''Stopping'') = Some 1 \<and>
   retval (run ex_os ex_proc ''/bin/false x'') = Some 1"
proof -
  have r: "retval (run ex_os ex_proc ''/bin/false x'') = Some 1"
    using run_spawns(1) [OF argv_false, of ex_os 100 ex_proc]
    by (simp add: reaped_def child_end_def prog_end_ex_os run_result_1)
  have "retval (run_interactive 1024 ex_os ex_proc ''/bin/false x'' ''Stopping'') =
      retval (run ex_os ex_proc ''/bin/false x'')"
    using run_interactive_status [of 1024 ex_os ex_proc "''/bin/false x''" "''Stopping''"]
    by blast
  with r show ?thesis
    by simp
qed

subsection \<open>Signal dispositions in the children\<close>

lemma fold_DFLSIG_sigtab:
  "sigtab (fold DFLSIG ns st) i = (if i \<in> set ns then SIG_DFL else sigtab st i)"
  by (induction ns arbitrary: st) (auto simp: DFLSIG_def)

lemma sigtab_dup2 [simp]: "sigtab (dup2 a b st) = sigtab st"
  by (simp add: dup2_def split: option.splits)

text \<open>
  The child of \<open>run\<close> has every disposition from 1 to \<open>NSIG - 1\<close> at the default
  when it reaches \<open>execvp\<close>.
\<close>

lemma run_child_resets_signals:
  assumes "1 \<le> i" and "i < NSIG"
  shows "sigtab (snd (run_child os st fp argv)) i = SIG_DFL"
  using assms by (simp add: run_child_def Let_def fold_DFLSIG_sigtab split: option.splits)

lemma run_resets_signals:
  assumes "1 \<le> i" and "i < NSIG" and "fate_of (run (in_child os) st cmd) = Some fate"
  shows "end_signal i (run (in_child os) st cmd) = Some SIG_DFL"
  using assms
  by (auto simp: run_def in_child_def end_signal_def end_state_def fate_of_def Let_def
      run_child_def fold_DFLSIG_sigtab split: sum.splits prod.splits option.splits if_splits)

text \<open>
  Claim C3 asks the same of every child of this file: the dispositions of the signals
  1 to \<open>NSIG - 1\<close> are reset before \<open>exec\<close>.  The child of \<open>run_parts\<close> calls
  \<open>execv\<close> straight after \<open>fork\<close>: started from a process that ignores signal
  17, the child that executes \<open>S01a\<close> still ignores it at \<open>execv\<close>.
\<close>

theorem run_parts_child_keeps_dispositions:
  "fate_of (run_parts (in_child ex_os) ex_fs ex_proc ''/etc/rc.d'' []) =
     Some (Exec ''S01a'' [''S01a'']) \<and>
   end_signal 17 (run_parts (in_child ex_os) ex_fs ex_proc ''/etc/rc.d'' []) = Some SIG_IGN \<and>
   sigtab ex_proc 17 = SIG_IGN"
  by code_simp

subsection \<open>The working directory after \<open>run_parts\<close>\<close>

text \<open>On the path that runs scripts the working directory is restored.\<close>

lemma run_parts_restores_cwd_example:
  "cwd ex_proc = ''/'' \<and>
   retval (run_parts ex_os ex_fs ex_proc ''/etc/rc.d'' []) = Some 0 \<and>
   end_cwd (run_parts ex_os ex_fs ex_proc ''/etc/rc.d'' []) = Some ''/''"
  by code_simp

text \<open>
  Claim C6 asks that the caller's working directory is restored on every exit path of
  \<open>run_parts\<close>.  Two of the early returns leave without \<open>chdir(oldpwd)\<close>: with
  no executable script in the directory the call returns 0 and the process stays in
  \<open>/etc/empty.d\<close>; with a relative directory the second lookup by \<open>opendir\<close> fails,
  the call returns -1 and the process stays in \<open>/etc/rc.d\<close>.
\<close>

theorem run_parts_leaks_cwd:
  "cwd ex_proc = ''/'' \<and>
   retval (run_parts ex_os ex_fs ex_proc ''/etc/empty.d'' []) = Some 0 \<and>
   end_cwd (run_parts ex_os ex_fs ex_proc ''/etc/empty.d'' []) = Some ''/etc/empty.d'' \<and>
   retval (run_parts ex_os ex_fs (ex_proc\<lparr>cwd := ''/etc''\<rparr>) ''rc.d'' []) = Some (- 1) \<and>
   end_cwd (run_parts ex_os ex_fs (ex_proc\<lparr>cwd := ''/etc''\<rparr>) ''rc.d'' []) = Some ''/etc/rc.d''"
  by code_simp

subsection \<open>\<open>pidfile_read\<close>\<close>

lemma pidfile_read_NULL: "pidfile_read files err None = (- 1, EINVAL)"
  by (simp add: pidfile_read_def)

lemma pidfile_read_missing:
  "files path = Missing \<Longrightarrow> pidfile_read files err (Some path) = (- 1, ENOENT)"
  by (simp add: pidfile_read_def fexist_def)

lemma pidfile_read_empty:
  "files path = Content [] \<Longrightarrow> pidfile_read files err (Some path) = (0, err)"
  by (simp add: pidfile_read_def fexist_def fgets_def)

lemma pidfile_read_examples:
  "pidfile_read ex_files 0 (Some ''/var/run/syslogd.pid'') = (412, 0)"
  "pidfile_read ex_files 0 (Some ''/var/run/junk.pid'') = (0, 0)"
  "pidfile_read ex_files 0 (Some ''/var/run/empty.pid'') = (0, 0)"
  "fst (pidfile_read ex_files 0 (Some ''/var/run/missing.pid'')) = - 1"
  by code_simp+

text \<open>
  Claim C7 has a successful read return a pid greater than 1 and keeps the failure
  modes apart.  The first three parts hold (the lemmas above); the last does not,
  since the converted number is returned unchecked: a pidfile holding \<open>1\<close> reads as
  pid 1, and one holding \<open>-1\<close> reads as -1, the value that also reports a missing
  file.
\<close>

theorem pidfile_read_unchecked:
  "pidfile_read ex_files 0 (Some ''/var/run/init.pid'') = (1, 0) \<and>
   pidfile_read ex_files 0 (Some ''/var/run/neg.pid'') = (- 1, 0) \<and>
   ex_files ''/var/run/init.pid'' = Content ''1\<newline>'' \<and>
   ex_files ''/var/run/neg.pid'' = Content ''-1\<newline>''"
  by code_simp

subsection \<open>\<open>procname_kill\<close>\<close>

lemma of_char_eq_0_iff: "(of_char c :: nat) = 0 \<longleftrightarrow> c = NUL"
proof -
  have "(of_char c :: nat) = 0 \<longleftrightarrow> (of_char c :: nat) = of_char NUL"
    by simp
  then show ?thesis
    by (simp only: of_char_eq_iff)
qed

lemma strncmp_0: "n \<le> 0 \<Longrightarrow> strncmp xs ys n = 0"
  by (cases xs; cases ys) simp_all

lemma strncmp_prefix:
  "NUL \<notin> set xs \<Longrightarrow> strncmp (xs @ ys) t (int (length xs)) = 0 \<longleftrightarrow> prefix xs t"
proof (induction xs arbitrary: t)
  case Nil
  then show ?case by (simp add: strncmp_0)
next
  case (Cons a xs)
  show ?case
  proof (cases t)
    case Nil
    with Cons.prems show ?thesis by (auto simp: of_char_eq_0_iff)
  next
    case (Cons b t')
    with Cons.prems Cons.IH [of t'] show ?thesis
      by (auto simp: of_char_eq_iff)
  qed
qed

lemma take_line_newline:
  "CHR ''\<newline>'' \<notin> set xs \<Longrightarrow> length xs < k \<Longrightarrow> take_line k (xs @ CHR ''\<newline>'' # ys) = xs @ [CHR ''\<newline>'']"
proof (induction xs arbitrary: k)
  case Nil
  then show ?case by (cases k) simp_all
next
  case (Cons a xs)
  then show ?case by (cases k) auto
qed

lemma strcspn_NUL:
  "\<forall>c \<in> set xs. c \<noteq> NUL \<and> c \<notin> set reject \<Longrightarrow> d = NUL \<or> d \<in> set reject \<Longrightarrow> strcspn (xs @ d # ys) reject = Some (length xs)"
  by (induction xs) auto


lemma status_name_text:
  assumes "status_name tx = Some cand"
  obtains rest where "tx = ''Name:'' @ [CHR 0x09] @ cand @ CHR ''\<newline>'' # rest"
    and "CHR ''\<newline>'' \<notin> set cand" and "NUL \<notin> set cand" and "length cand \<le> 56"
proof -
  let ?d = "drop 6 tx"
  let ?P = "\<lambda>c. c \<noteq> CHR ''\<newline>''"
  from assms have c: "cand = takeWhile ?P ?d"
    and h: "take 6 tx = ''Name:'' @ [CHR 0x09]"
    and l: "length cand < length ?d"
    and n: "NUL \<notin> set cand" and b: "length cand \<le> 56"
    by (auto simp: status_name_def Let_def split: if_splits)
  have nl: "CHR ''\<newline>'' \<notin> set cand"
    unfolding c by (auto dest: set_takeWhileD)
  have ne: "dropWhile ?P ?d \<noteq> []"
  proof
    assume "dropWhile ?P ?d = []"
    then have "takeWhile ?P ?d = ?d"
      by (simp add: takeWhile_eq_all_conv dropWhile_eq_Nil_conv)
    with l c show False
      by simp
  qed
  then have "\<not> ?P (hd (dropWhile ?P ?d))"
    by (rule hd_dropWhile)
  with ne have "dropWhile ?P ?d = CHR ''\<newline>'' # tl (dropWhile ?P ?d)"
    by (cases "dropWhile ?P ?d") simp_all
  moreover have "?d = takeWhile ?P ?d @ dropWhile ?P ?d"
    by simp
  ultimately have "?d = cand @ CHR ''\<newline>'' # tl (dropWhile ?P ?d)"
    unfolding c by simp
  moreover have "tx = take 6 tx @ ?d"
    by simp
  ultimately have "tx = ''Name:'' @ [CHR 0x09] @ cand @ CHR ''\<newline>'' # tl (dropWhile ?P ?d)"
    using h by (simp del: append_take_drop_id)
  then show thesis
    using nl n b by (rule that)
qed

lemma fgets_status:
  assumes "CHR ''\<newline>'' \<notin> set cand" and "length cand \<le> 56"
  shows "fgets 64 (''Name:'' @ [CHR 0x09] @ cand @ CHR ''\<newline>'' # rest) =
     Some (''Name:'' @ [CHR 0x09] @ cand @ [CHR ''\<newline>''])"
proof -
  have "take_line 63 ((''Name:'' @ [CHR 0x09] @ cand) @ CHR ''\<newline>'' # rest) =
      (''Name:'' @ [CHR 0x09] @ cand) @ [CHR ''\<newline>'']"
    using assms by (intro take_line_newline) auto
  then show ?thesis
    by (simp add: fgets_def)
qed

lemma procname_kill_step_named:
  assumes "numeric entry" and "files (status_path entry) = Content tx"
    and "status_name tx = Some cand"
  shows "\<exists>line'. procname_kill_step files kill_ok name signo entry line result st =
     Inr (line',
          (if prefix cand (c_str name) \<and> kill_ok (atoi entry) signo then result + 1 else result),
          (if prefix cand (c_str name)
           then st\<lparr>trace := trace st @ [EKill (atoi entry) signo]\<rparr> else st))"
proof -
  from assms(3) obtain rest where txeq: "tx = ''Name:'' @ [CHR 0x09] @ cand @ CHR ''\<newline>'' # rest"
    and nl: "CHR ''\<newline>'' \<notin> set cand" and nul: "NUL \<notin> set cand" and len: "length cand \<le> 56"
    by (rule status_name_text)
  let ?l = "''Name:'' @ [CHR 0x09] @ cand @ [CHR ''\<newline>'']"
  let ?line = "?l @ [NUL] @ drop (length ?l + 1) line"
  have g: "fgets 64 tx = Some ?l"
    unfolding txeq using nl len by (rule fgets_status)
  have d: "drop 6 ?line = (cand @ [CHR ''\<newline>'']) @ NUL # drop (length ?l + 1) line"
    by simp
  have s: "strcspn (drop 6 ?line) [] = Some (length cand + 1)"
    unfolding d using nul by (subst strcspn_NUL) auto
  have t: "take (length cand + 1) (drop 6 ?line) = cand @ [CHR ''\<newline>'']"
    unfolding d by simp
  have m: "(int (length cand + 1) - 1) mod 2 ^ 64 = int (length cand)"
    using len by simp
  have p: "strncmp (cand @ [CHR ''\<newline>'']) (c_str name) (int (length cand)) = 0
      \<longleftrightarrow> prefix cand (c_str name)"
    using nul by (rule strncmp_prefix)
  from assms(1) have num: "(case entry of [] \<Rightarrow> False | c # cs \<Rightarrow> isdigit c)"
    by (simp add: numeric_def)
  show ?thesis
    unfolding procname_kill_step_def
    using num assms(2) g s t m p
    by (simp add: Let_def del: append.simps drop_append)
qed


lemma procname_kill_step_skipped:
  assumes "\<not> numeric entry \<or> files (status_path entry) = Missing \<or>
    files (status_path entry) = Unreadable \<or> files (status_path entry) = Content []"
  shows "procname_kill_step files kill_ok name signo entry line result st =
     Inr (line, result, st)"
  using assms by (auto simp: procname_kill_step_def numeric_def fgets_def)

lemma name_is_prefix_skipped:
  assumes "\<not> numeric entry \<or> files (status_path entry) = Missing \<or>
    files (status_path entry) = Unreadable \<or> files (status_path entry) = Content []"
  shows "\<not> name_is_prefix files name entry"
  using assms by (auto simp: name_is_prefix_def status_name_def)

lemma name_is_prefix_named:
  assumes "numeric entry" and "files (status_path entry) = Content tx"
    and "status_name tx = Some cand"
  shows "name_is_prefix files name entry \<longleftrightarrow> prefix cand (c_str name)"
  using assms by (simp add: name_is_prefix_def)

lemma regular_entry_cases:
  assumes "regular_entry files entry"
  shows "(\<not> numeric entry \<or> files (status_path entry) = Missing \<or>
      files (status_path entry) = Unreadable \<or> files (status_path entry) = Content []) \<or>
    (\<exists>tx cand. numeric entry \<and> files (status_path entry) = Content tx \<and>
      status_name tx = Some cand)"
  using assms
  by (cases "files (status_path entry)") (auto simp: regular_entry_def split: if_splits)

text \<open>
  The loop over regular entries: the signal goes to exactly the entries whose name is a
  prefix of the target name, in the order of the directory; each successful
  \<open>kill\<close> is counted and a failed one changes nothing else.
\<close>

lemma procname_kill_loop_regular:
  assumes "list_all (regular_entry files) entries"
  shows "procname_kill_loop files kill_ok name signo entries line result st =
     Inr (result + int (length (filter (\<lambda>e. kill_ok (atoi e) signo)
                                   (filter (name_is_prefix files name) entries))),
          st\<lparr>trace := trace st
                @ map (\<lambda>e. EKill (atoi e) signo) (filter (name_is_prefix files name) entries)\<rparr>)"
  using assms
proof (induction entries arbitrary: line result st)
  case Nil
  then show ?case by simp
next
  case (Cons entry entries)
  from Cons.prems have reg: "regular_entry files entry"
    and rest: "list_all (regular_entry files) entries"
    by simp_all
  note IH = Cons.IH [OF rest]
  from regular_entry_cases [OF reg] show ?case
  proof (elim disjE exE conjE)
    assume "\<not> numeric entry"
    then show ?thesis
      by (simp add: procname_kill_step_skipped name_is_prefix_skipped IH)
  next
    assume "files (status_path entry) = Missing"
    then show ?thesis
      by (simp add: procname_kill_step_skipped name_is_prefix_skipped IH)
  next
    assume "files (status_path entry) = Unreadable"
    then show ?thesis
      by (simp add: procname_kill_step_skipped name_is_prefix_skipped IH)
  next
    assume "files (status_path entry) = Content []"
    then show ?thesis
      by (simp add: procname_kill_step_skipped name_is_prefix_skipped IH)
  next
    fix tx cand
    assume nm: "numeric entry" "files (status_path entry) = Content tx"
      "status_name tx = Some cand"
    from procname_kill_step_named [where files = files and entry = entry, OF nm,
        of kill_ok name signo line result st]
    obtain line' where "procname_kill_step files kill_ok name signo entry line result st =
     Inr (line',
          (if prefix cand (c_str name) \<and> kill_ok (atoi entry) signo then result + 1 else result),
          (if prefix cand (c_str name)
           then st\<lparr>trace := trace st @ [EKill (atoi entry) signo]\<rparr> else st))"
      by blast
    then show ?thesis
      by (simp add: name_is_prefix_named [where files = files and entry = entry, OF nm] IH)
  qed
qed

text \<open>
  Claim C8 says that the compared length is taken from the target name, so that a
  target that is a prefix of a process's name matches it.  The length is
  \<open>strlen(pname) - 1\<close>, taken from the candidate: with the target \<open>sys\<close> the
  process \<open>syslogd\<close> (412) gets no signal, only \<open>sys\<close> (7) does; with the target
  \<open>syslogd\<close> the process \<open>sys\<close> is signalled along with the two \<open>syslogd\<close>.
\<close>

theorem procname_kill_target_prefix_unmatched:
  "kills_of (procname_kill ex_procfs (Some ex_procdir) ex_kill_ok (replicate 64 (CHR ''x''))
       ex_proc (Some ''sys'') 15) = Some (1, [EKill 7 15]) \<and>
   status_name (''Name:'' @ [CHR 0x09] @ ''syslogd\<newline>State: S\<newline>'') = Some ''syslogd'' \<and>
   ex_procfs ''/proc/412/status'' = Content (''Name:'' @ [CHR 0x09] @ ''syslogd\<newline>State: S\<newline>'') \<and>
   kills_of (procname_kill ex_procfs (Some ex_procdir) ex_kill_ok (replicate 64 (CHR ''x''))
       ex_proc (Some ''syslogd'') 15) = Some (2, [EKill 7 15, EKill 412 15, EKill 413 15])"
  by code_simp

text \<open>
  Claim C8 as amended.  On a process table of regular entries, \<open>procname_kill\<close>
  compares over the length of the candidate's name (its line less the trailing
  newline), so the entries matched are exactly the numeric ones whose process name is a
  prefix of the target name.  Each of them is sent the signal, in directory order; the
  value returned is the number of those for which \<open>kill\<close> succeeded, and a failed
  \<open>kill\<close> does not end the scan.
\<close>

theorem procname_kill_prefix_rule:
  assumes "list_all (regular_entry files) entries"
  shows "kills_of (procname_kill files (Some entries) kill_ok line0 st (Some name) signo) =
     Some (int (length (filter (\<lambda>e. kill_ok (atoi e) signo)
                          (filter (name_is_prefix files name) entries))),
           trace st
             @ map (\<lambda>e. EKill (atoi e) signo) (filter (name_is_prefix files name) entries))"
  using procname_kill_loop_regular [OF assms, of kill_ok name signo line0 0 st]
  by (simp add: procname_kill_def kills_of_def)

theorem procname_kill_prefix_rule_witness:
  "list_all (regular_entry ex_procfs) ex_procdir \<and>
   filter (name_is_prefix ex_procfs ''syslogd'') ex_procdir = [''7'', ''412'', ''413''] \<and>
   kills_of (procname_kill ex_procfs (Some ex_procdir) ex_kill_ok (replicate 64 (CHR ''x''))
       ex_proc (Some ''syslogd'') 15) = Some (2, [EKill 7 15, EKill 412 15, EKill 413 15])"
proof -
  have r: "list_all (regular_entry ex_procfs) ex_procdir"
    by code_simp
  have f: "filter (name_is_prefix ex_procfs ''syslogd'') ex_procdir = [''7'', ''412'', ''413'']"
    by code_simp
  have a: "atoi ''7'' = 7" "atoi ''412'' = 412" "atoi ''413'' = 413"
    by code_simp+
  have t: "trace ex_proc = []"
    by (simp add: ex_proc_def)
  from procname_kill_prefix_rule [OF r, of ex_kill_ok "replicate 64 (CHR ''x'')" ex_proc
      "''syslogd''" 15]
  have "kills_of (procname_kill ex_procfs (Some ex_procdir) ex_kill_ok
      (replicate 64 (CHR ''x'')) ex_proc (Some ''syslogd'') 15) =
        Some (2, [EKill 7 15, EKill 412 15, EKill 413 15])"
    unfolding f by (simp add: a t ex_kill_ok_def)
  with r f show ?thesis
    by simp
qed

subsection \<open>\<open>run_parts\<close>: which scripts run, and in which order\<close>









lemma trace_chdir [simp]: "trace (snd (chdir fs path st)) = trace st"
  by (simp add: chdir_def split: option.splits)





subsection \<open>The tokenizer of \<open>run\<close>\<close>

lemma strsep_token_pointer:
  "strsep buf (Some b) delim = Inr (tok, buf', arg') \<Longrightarrow> tok = Some b"
  by (auto simp: strsep_def split: option.splits if_splits)

text \<open>
  The argument vector is never empty: \<open>args[0]\<close> is the start of the buffer, and the
  loop only appends.
\<close>

lemma run_split_loop_prefix:
  "run_split_loop buf arg args = Inr (buf', arg', args') \<Longrightarrow> prefix args args'"
proof (induction buf arg args rule: run_split_loop.induct)
  case (1 buf arg args)
  from "1.prems" obtain tok b a where s: "run_split_step buf arg = Inr (tok, b, a)"
    by (subst (asm) run_split_loop.simps) (auto split: sum.splits)
  show ?case
  proof (cases "a \<noteq> None \<and> length (args @ [tok]) < NUM_ARGS")
    case True
    with "1.prems" s have "run_split_loop b a (args @ [tok]) = Inr (buf', arg', args')"
      by (subst (asm) run_split_loop.simps) simp
    then have "prefix (args @ [tok]) args'"
      by (rule "1.IH" [OF s refl refl True])
    then show ?thesis
      by (rule append_prefixD)
  next
    case False
    with "1.prems" s have "args' = args @ [tok]"
      by (subst (asm) run_split_loop.simps) auto
    then show ?thesis
      by simp
  qed
qed

lemma run_argv_nonempty: "run_argv cmd = Inr argv \<Longrightarrow> argv \<noteq> []"
proof -
  assume a: "run_argv cmd = Inr argv"
  let ?first = "strsep (strdup cmd) (Some 0) [CHR 0x09, CHR '' '']"
  from a obtain buf args i where s: "run_split cmd = Inr (buf, args, i)"
    and v: "argv = argv_of buf args"
    by (cases "run_split cmd") (auto simp: run_argv_def)
  from s obtain tok buf1 arg where f: "?first = Inr (tok, buf1, arg)"
    unfolding run_split_def by (cases ?first) auto
  from s f obtain buf2 arg2 args2
    where l: "run_split_loop buf1 arg [tok] = Inr (buf2, arg2, args2)"
      and e: "args = args2 @ [None]"
    unfolding run_split_def by (cases "run_split_loop buf1 arg [tok]") auto
  from f have "tok = Some 0"
    by (rule strsep_token_pointer)
  with run_split_loop_prefix [OF l] obtain rest where "args2 = Some 0 # rest"
    by (auto simp: prefix_def)
  with e v show ?thesis
    by (simp add: argv_of_def)
qed

lemma c_str_id: "NUL \<notin> set s \<Longrightarrow> c_str s = s"
  by (auto simp: c_str_def)

lemma c_str_at_token:
  "NUL \<notin> set tok \<Longrightarrow> c_str_at (pre @ tok @ NUL # post) (length pre) = tok"
  by (auto simp: c_str_at_def c_str_def takeWhile_tail)

lemma strsep_split:
  assumes "\<forall>c \<in> set tok. c \<noteq> NUL \<and> c \<notin> set delim" and "d \<in> set delim" and "d \<noteq> NUL"
  shows "strsep (pre @ tok @ d # post) (Some (length pre)) delim =
     Inr (Some (length pre), pre @ tok @ NUL # post, Some (length pre + length tok + 1))"
proof -
  have s: "strcspn (drop (length pre) (pre @ tok @ d # post)) delim = Some (length tok)"
    using assms(1,2) by (simp add: strcspn_NUL)
  have n: "(pre @ tok @ d # post) ! (length pre + length tok) = d"
    using nth_append_length [of "pre @ tok" d post] by simp
  have u: "(pre @ tok @ d # post)[length pre + length tok := NUL] = pre @ tok @ NUL # post"
    using list_update_length [of "pre @ tok" d post NUL] by simp
  show ?thesis
    unfolding strsep_def option.case s n u using assms(3) by simp
qed

lemma strsep_end:
  assumes "\<forall>c \<in> set tok. c \<noteq> NUL \<and> c \<notin> set delim"
  shows "strsep (pre @ tok @ NUL # post) (Some (length pre)) delim =
     Inr (Some (length pre), pre @ tok @ NUL # post, None)"
proof -
  have s: "strcspn (drop (length pre) (pre @ tok @ NUL # post)) delim = Some (length tok)"
    using assms by (simp add: strcspn_NUL)
  have n: "(pre @ tok @ NUL # post) ! (length pre + length tok) = NUL"
    using nth_append_length [of "pre @ tok" NUL post] by simp
  show ?thesis
    unfolding strsep_def option.case s n by simp
qed

text \<open>
  The loop body at a quote character, anywhere in the buffer: the token starts at the
  opening quote, the closing quote is put back after \<open>strsep\<close> has cut there, and
  the byte after it is overwritten with the terminator.
\<close>

lemma run_split_step_quoted:
  assumes "q = CHR 0x27 \<or> q = CHR 0x22" and "\<forall>c \<in> set body. c \<noteq> NUL \<and> c \<noteq> q"
  shows "run_split_step (pre @ q # body @ q # c # post) (Some (length pre)) =
     Inr (Some (length pre), pre @ q # body @ q # NUL # post,
          Some (length pre + length body + 3))"
proof -
  let ?buf = "pre @ q # body @ q # c # post"
  have q: "q \<noteq> NUL"
    using assms(1) by auto
  have h: "?buf ! length pre = q"
    by simp
  have "strsep ((pre @ [q]) @ body @ q # c # post) (Some (length (pre @ [q]))) [q] =
     Inr (Some (length (pre @ [q])), (pre @ [q]) @ body @ NUL # c # post,
          Some (length (pre @ [q]) + length body + 1))"
    using assms(2) q by (intro strsep_split) auto
  then have s: "strsep ?buf (Some (length pre + 1)) [q] =
     Inr (Some (length pre + 1), pre @ q # body @ NUL # c # post,
          Some (length pre + length body + 2))"
    by simp
  have u1: "(pre @ q # body @ NUL # c # post)[length pre + length body + 2 - 1 := q] = ?buf"
    using list_update_length [of "pre @ q # body" NUL "c # post" q] by simp
  have u2: "?buf[length pre + length body + 2 := NUL] = pre @ q # body @ q # NUL # post"
    using list_update_length [of "pre @ q # body @ [q]" c post NUL] by simp
  show ?thesis
    unfolding run_split_step_def
    using assms(1) 
    apply (simp only: option.case h Let_def s sum.case prod.case list.sel u1 u2)
    apply simp
    done
qed


lemma run_split_step_plain:
  assumes "a < length buf" and "buf ! a \<noteq> CHR 0x27" and "buf ! a \<noteq> CHR 0x22"
  shows "run_split_step buf (Some a) = strsep buf (Some a) [CHR 0x09, CHR '' '']"
  using assms by (simp add: run_split_step_def)

lemma token_no_NUL: "item_ok t \<Longrightarrow> NUL \<notin> set (token t)"
  by (cases t) (auto simp: plain_word_def is_quote_def)

lemma raw_no_NUL: "item_ok t \<Longrightarrow> NUL \<notin> set (raw t)"
  by (cases t) (auto simp: plain_word_def is_quote_def blank_def)

text \<open>The loop body at a plain item, at the last word, and at any item.\<close>

lemma run_split_step_word:
  assumes "plain_word w" and "unquoted w" and "blank sp"
  shows "run_split_step (pre @ w @ sp # post) (Some (length pre)) =
     Inr (Some (length pre), pre @ w @ NUL # post, Some (length pre + length w + 1))"
proof -
  let ?buf = "pre @ w @ sp # post"
  have h: "?buf ! length pre = hd (w @ [sp])"
    by (cases w) (simp_all add: nth_append)
  have nq: "hd (w @ [sp]) \<noteq> CHR 0x27 \<and> hd (w @ [sp]) \<noteq> CHR 0x22"
  proof (cases w)
    case Nil
    with assms(3) show ?thesis
      by (auto simp: blank_def)
  next
    case (Cons x xs)
    with assms(2) show ?thesis
      by (simp add: unquoted_def is_quote_def)
  qed
  have "run_split_step ?buf (Some (length pre)) = strsep ?buf (Some (length pre)) [CHR 0x09, CHR '' '']"
    using h nq by (intro run_split_step_plain) simp_all
  also have "\<dots> = Inr (Some (length pre), pre @ w @ NUL # post, Some (length pre + length w + 1))"
    using assms(1,3) by (intro strsep_split) (auto simp: plain_word_def blank_def)
  finally show ?thesis .
qed

lemma run_split_step_last:
  assumes "plain_word w" and "unquoted w"
  shows "run_split_step (pre @ w @ [NUL]) (Some (length pre)) =
     Inr (Some (length pre), pre @ w @ [NUL], None)"
proof -
  let ?buf = "pre @ w @ [NUL]"
  have h: "?buf ! length pre = hd (w @ [NUL])"
    by (cases w) (simp_all add: nth_append)
  have nq: "hd (w @ [NUL]) \<noteq> CHR 0x27" "hd (w @ [NUL]) \<noteq> CHR 0x22"
    using assms(2) by (cases w; simp add: unquoted_def is_quote_def)+
  have "run_split_step ?buf (Some (length pre)) = strsep ?buf (Some (length pre)) [CHR 0x09, CHR '' '']"
    using h nq by (intro run_split_step_plain) simp_all
  also have "\<dots> = Inr (Some (length pre), ?buf, None)"
    using assms(1) strsep_end [of w "[CHR 0x09, CHR '' '']" pre "[]"]
    by (auto simp: plain_word_def blank_def)
  finally show ?thesis .
qed

lemma run_split_step_item:
  assumes "item_ok t"
  shows "run_split_step (pre @ raw t @ post) (Some (length pre)) =
     Inr (Some (length pre), pre @ token t @ NUL # post, Some (length pre + length (token t) + 1))"
proof (cases t)
  case (Plain w sp)
  with assms run_split_step_word [of w sp pre post] show ?thesis
    by simp
next
  case (Quoted q body c)
  with assms run_split_step_quoted [of q body pre c post] show ?thesis
    by (simp add: is_quote_def)
qed

text \<open>
  The loop on a row of items and a last word, entered with fewer than \<open>NUM_ARGS\<close>
  pointers stored: it stores pointers only beyond the part \<open>pre\<close> of the buffer
  that lies before \<open>arg\<close>, leaves that part alone, and the strings at the new
  pointers are the tokens of the items and the last word, as many as still fit.
\<close>

lemma run_split_loop_items:
  assumes "\<forall>t \<in> set items. item_ok t" and "plain_word wn" and "unquoted wn"
    and "length args < NUM_ARGS"
  shows "\<exists>X a ptrs.
    run_split_loop (pre @ concat (map raw items) @ wn @ [NUL]) (Some (length pre)) args =
      Inr (pre @ X, a, args @ map Some ptrs) \<and>
    map (c_str_at (pre @ X)) ptrs = take (NUM_ARGS - length args) (map token items @ [wn])"
  using assms
proof (induction items arbitrary: pre args)
  case Nil
  have n: "NUL \<notin> set wn"
    using Nil.prems(2) by (auto simp: plain_word_def)
  have "run_split_loop (pre @ wn @ [NUL]) (Some (length pre)) args =
      Inr (pre @ wn @ [NUL], None, args @ map Some [length pre])"
    by (subst run_split_loop.simps)
       (simp add: run_split_step_last [OF Nil.prems(2,3)])
  moreover have "map (c_str_at (pre @ wn @ [NUL])) [length pre] =
      take (NUM_ARGS - length args) (map token [] @ [wn])"
    using Nil.prems(4) c_str_at_token [OF n, of pre "[]"] by (cases "NUM_ARGS - length args") simp_all
  ultimately show ?case
    by (intro exI [of _ "wn @ [NUL]"] exI [of _ None] exI [of _ "[length pre]"]) simp
next
  case (Cons t ts)
  let ?post = "concat (map raw ts) @ wn @ [NUL]"
  let ?pre' = "pre @ token t @ [NUL]"
  have ok: "item_ok t"
    using Cons.prems(1) by simp
  have n: "NUL \<notin> set (token t)"
    using ok by (rule token_no_NUL)
  have step: "run_split_step (pre @ concat (map raw (t # ts)) @ wn @ [NUL]) (Some (length pre)) =
      Inr (Some (length pre), ?pre' @ ?post, Some (length ?pre'))"
    using run_split_step_item [OF ok, of pre ?post] by simp
  show ?case
  proof (cases "length (args @ [Some (length pre)]) < NUM_ARGS")
    case True
    from Cons.IH [of "args @ [Some (length pre)]" ?pre'] Cons.prems True
    obtain X a ptrs where
      l: "run_split_loop (?pre' @ ?post) (Some (length ?pre')) (args @ [Some (length pre)]) =
          Inr (?pre' @ X, a, (args @ [Some (length pre)]) @ map Some ptrs)"
      and r: "map (c_str_at (?pre' @ X)) ptrs =
          take (NUM_ARGS - length (args @ [Some (length pre)])) (map token ts @ [wn])"
      by auto
    have "run_split_loop (pre @ concat (map raw (t # ts)) @ wn @ [NUL]) (Some (length pre)) args =
        Inr (pre @ (token t @ NUL # X), a, args @ map Some (length pre # ptrs))"
      apply (subst run_split_loop.simps)
      apply (simp only: step sum.case prod.case)
      using True l apply simp
      done
    moreover have "map (c_str_at (pre @ (token t @ NUL # X))) (length pre # ptrs) =
        take (NUM_ARGS - length args) (map token (t # ts) @ [wn])"
    proof -
      have "NUM_ARGS - length args = Suc (NUM_ARGS - length (args @ [Some (length pre)]))"
        using True by simp
      then show ?thesis
        using r c_str_at_token [OF n, of pre X] by simp
    qed
    ultimately show ?thesis
      by blast
  next
    case False
    with Cons.prems(4) have m: "NUM_ARGS - length args = 1"
      by simp
    have "run_split_loop (pre @ concat (map raw (t # ts)) @ wn @ [NUL]) (Some (length pre)) args =
        Inr (pre @ (token t @ NUL # ?post), Some (length ?pre'), args @ map Some [length pre])"
      apply (subst run_split_loop.simps)
      apply (simp only: step sum.case prod.case)
      using False apply simp
      done
    moreover have "map (c_str_at (pre @ (token t @ NUL # ?post))) [length pre] =
        take (NUM_ARGS - length args) (map token (t # ts) @ [wn])"
      unfolding m using c_str_at_token [OF n, of pre ?post] by simp
    ultimately show ?thesis
      by blast
  qed
qed

text \<open>The argument vector of a whole command line.\<close>

lemma run_argv_command_line:
  assumes "plain_word w0" and "blank sp0" and "\<forall>t \<in> set items. item_ok t"
    and "plain_word wn" and "unquoted wn"
  shows "run_argv (command_line w0 sp0 items wn) = Inr (take NUM_ARGS (tokens w0 items wn))"
proof -
  let ?ws = "[CHR 0x09, CHR '' '']"
  let ?cmd = "command_line w0 sp0 items wn"
  let ?post = "concat (map raw items) @ wn @ [NUL]"
  have n0: "NUL \<notin> set w0"
    using assms(1) by (auto simp: plain_word_def)
  have "NUL \<notin> set ?cmd"
    using assms raw_no_NUL by (auto simp: command_line_def plain_word_def blank_def)
  then have d: "strdup ?cmd = w0 @ sp0 # ?post"
    by (simp add: strdup_def c_str_id command_line_def)
  have "strsep ([] @ w0 @ sp0 # ?post) (Some (length ([] :: string))) ?ws =
      Inr (Some (length ([] :: string)), [] @ w0 @ NUL # ?post,
           Some (length ([] :: string) + length w0 + 1))"
    using assms(1,2) by (intro strsep_split) (auto simp: plain_word_def blank_def)
  then have s0: "strsep (strdup ?cmd) (Some 0) ?ws =
      Inr (Some 0, (w0 @ [NUL]) @ ?post, Some (length (w0 @ [NUL])))"
    unfolding d by simp
  from run_split_loop_items [OF assms(3,4,5), of "[Some 0]" "w0 @ [NUL]"]
  obtain X a ptrs where
    l: "run_split_loop ((w0 @ [NUL]) @ ?post) (Some (length (w0 @ [NUL]))) [Some 0] =
        Inr ((w0 @ [NUL]) @ X, a, [Some 0] @ map Some ptrs)"
    and r: "map (c_str_at ((w0 @ [NUL]) @ X)) ptrs =
        take (NUM_ARGS - length [Some (0::nat)]) (map token items @ [wn])"
    by (auto simp: NUM_ARGS_def)
  have split: "run_split ?cmd =
      Inr ((w0 @ [NUL]) @ X, ([Some 0] @ map Some ptrs) @ [None], length ([Some 0] @ map Some ptrs))"
    unfolding run_split_def s0 sum.case prod.case l ..
  have tw: "takeWhile (\<lambda>p. p \<noteq> None) (map Some ptrs @ [None]) = map Some ptrs"
    by (induction ptrs) simp_all
  have av: "argv_of ((w0 @ [NUL]) @ X) (([Some 0] @ map Some ptrs) @ [None]) =
      c_str_at ((w0 @ [NUL]) @ X) 0 # map (c_str_at ((w0 @ [NUL]) @ X)) ptrs"
    unfolding argv_of_def using tw by (simp add: comp_def)
  have t0: "c_str_at ((w0 @ [NUL]) @ X) 0 = w0"
    using c_str_at_token [OF n0, of "[]" X] by simp
  have "take NUM_ARGS (tokens w0 items wn) =
      w0 # take (NUM_ARGS - length [Some (0::nat)]) (map token items @ [wn])"
    by (simp add: tokens_def NUM_ARGS_def)
  then show ?thesis
    unfolding run_argv_def split sum.case prod.case av t0 r by simp
qed

text \<open>
  Where the rule ends: a quoted span that ends the command line leaves \<open>arg\<close>
  beyond the terminator of the copy, and the next pass of the loop reads there; a
  quote that is never closed leaves \<open>arg\<close> null, and line 415 writes at the
  address before it.
\<close>

lemma run_quoted_token_at_end: "run_argv ''echo \"abc\"'' = Inl OutOfBounds"
  by code_simp

lemma run_quoted_token_unclosed: "run_argv ''echo \"abc'' = Inl NullDeref"
  by code_simp

text \<open>
  Claim C2 has the quote characters stripped from a quoted token.  They are kept, as
  the comment at lines 406-407 of \<open>run\<close> says: the command line of the claim gives
  the third argument with its quotes.
\<close>

theorem run_quotes_not_stripped:
  "run_argv ''su -c \"dbus-daemon --system\" messagebus'' =
     Inr [''su'', ''-c'', ''\"dbus-daemon --system\"'', ''messagebus''] \<and>
   run_argv ''su -c \"dbus-daemon --system\" messagebus'' \<noteq>
     Inr [''su'', ''-c'', ''dbus-daemon --system'', ''messagebus'']"
  by code_simp

text \<open>
  Claim C2 as amended.  Take a command line made of a first word, a blank, then
  tokens that are either unquoted words, each ended by one blank, or quoted spans
  (an opening \<open>'\<close> or \<open>"\<close>, a body without that character, the same character
  again and one more byte), and an unquoted last word.  The tokenizer of \<open>run\<close>
  cuts the first word at its blank, whether or not it begins with a quote, and turns
  every later token beginning with \<open>'\<close> or \<open>"\<close> into one token consisting of
  everything up to the matching quote character, with both quote characters kept;
  the byte after the closing quote is consumed.  The first \<open>NUM_ARGS\<close> tokens are
  taken.  The command line \<open>su -c "dbus-daemon --system" messagebus\<close> gives the
  arguments \<open>su\<close>, \<open>-c\<close>, \<open>"dbus-daemon --system"\<close> and \<open>messagebus\<close>, and
  \<open>echo hello\<close> gives \<open>echo\<close> and \<open>hello\<close>.
\<close>

theorem run_quoted_token_keeps_quotes:
  assumes "plain_word w0" and "blank sp0" and "\<forall>t \<in> set items. item_ok t"
    and "plain_word wn" and "unquoted wn"
  shows "run_argv (command_line w0 sp0 items wn) = Inr (take NUM_ARGS (tokens w0 items wn)) \<and>
    run_argv ''su -c \"dbus-daemon --system\" messagebus'' =
      Inr [''su'', ''-c'', ''\"dbus-daemon --system\"'', ''messagebus''] \<and>
    run_argv ''echo hello'' = Inr [''echo'', ''hello'']"
proof -
  have "run_argv ''su -c \"dbus-daemon --system\" messagebus'' =
      Inr [''su'', ''-c'', ''\"dbus-daemon --system\"'', ''messagebus'']"
    by code_simp
  moreover have "run_argv ''echo hello'' = Inr [''echo'', ''hello'']"
    by code_simp
  ultimately show ?thesis
    using run_argv_command_line [OF assms] by simp
qed

theorem run_quoted_token_keeps_quotes_witness:
  "run_argv (''\"sh -c '' @ CHR 0x27 # ''echo hi'' @ CHR 0x27 # '' \"my file\"\<newline>x'') =
     Inr [''\"sh'', ''-c'', CHR 0x27 # ''echo hi'' @ [CHR 0x27], ''\"my file\"'', ''x'']"
  using run_quoted_token_keeps_quotes
    [of "''\"sh''" "CHR '' ''"
        "[Plain ''-c'' (CHR '' ''), Quoted (CHR 0x27) ''echo hi'' (CHR '' ''),
          Quoted (CHR 0x22) ''my file'' (CHR ''\<newline>'')]" "''x''"]
  by (simp add: plain_word_def blank_def unquoted_def is_quote_def command_line_def
      tokens_def NUM_ARGS_def)

end
